theory Spec2Isabelle
  imports Main "HOL-Library.Char_ord" "HOL-Library.List_Lexorder"
begin

section \<open>Data model (database/models.ts)\<close>

text \<open>
  The table is the single DynamoDB table of the orchestrator. An item is the interface
  \<open>DocumentStatus\<close>: the key attributes \<open>PK\<close> and \<open>SK\<close> are always present, every
  other attribute may be absent (an \<open>UpdateCommand\<close> on a missing key creates an item
  that holds only the attributes it sets), so each is an option. Counters are integers.
\<close>

datatype overall_status = Pending | Chunking | Processing | Aggregating | Completed | Failed

record DocumentStatus =
  PK :: string
  SK :: string
  fileId :: "string option"
  tenantId :: "string option"
  pageNumber :: "nat option"
  pageAnalysis :: "string option"
  chunkIds :: "string list option"
  overallStatus :: "overall_status option"
  totalPages :: "int option"
  processedPages :: "int option"
  failedPages :: "int option"
  startedAt :: "string option"
  completedAt :: "string option"
  errorMessage :: "string option"
  resultS3Key :: "string option"
  createdAt :: "string option"
  updatedAt :: "string option"
  ttl :: "int option"
  GSI1PK :: "string option"
  GSI1SK :: "string option"

type_synonym key = "string \<times> string"

subsection \<open>Number.prototype.toString and String.prototype.padStart\<close>

text \<open>
  \<open>toString\<close> is the decimal rendering of a non-negative integer (what JavaScript prints
  for integers below \<open>10^21\<close>); \<open>padStart\<close> pads on the left up to the target length and
  leaves a longer string as it is.
\<close>

definition digit_char :: "nat \<Rightarrow> char" where
  "digit_char d = char_of (48 + d)"

fun toString :: "nat \<Rightarrow> string" where
  "toString n = (if n < 10 then [digit_char n] else toString (n div 10) @ [digit_char (n mod 10)])"

definition padStart :: "nat \<Rightarrow> char \<Rightarrow> string \<Rightarrow> string" where
  "padStart targetLength c s = replicate (targetLength - length s) c @ s"

subsection \<open>DynamoDBKeyGenerator\<close>

definition documentStatusKeys :: "string \<Rightarrow> key" where
  "documentStatusKeys fid = (''DOC#'' @ fid, ''STATUS'')"

definition documentPageKeys :: "string \<Rightarrow> nat \<Rightarrow> key" where
  "documentPageKeys fid pn = (''DOC#'' @ fid, ''PAGE#'' @ padStart 4 CHR ''0'' (toString pn))"

definition documentStatusGSI1Keys :: "string \<Rightarrow> string \<Rightarrow> string \<times> string" where
  "documentStatusGSI1Keys tid upd = (''TENANT#'' @ tid @ ''#STATUS'', upd)"

definition generateTTL :: "int \<Rightarrow> int \<Rightarrow> int" where
  "generateTTL nowMs days = nowMs div 1000 + days * 24 * 60 * 60"

definition isProcessingComplete :: "DocumentStatus \<Rightarrow> bool" where
  "isProcessingComplete status \<longleftrightarrow>
     SK status = ''STATUS'' \<and>
     processedPages status \<noteq> None \<and>
     totalPages status \<noteq> None \<and>
     processedPages status = totalPages status \<and>
     overallStatus status = Some Processing"

section \<open>The table and the commands sent to it\<close>

text \<open>
  The DynamoDB client is the collaborator behind \<open>dynamoClient.send\<close>. The table is a
  list of items with at most one item per key in use; \<open>PutCommand\<close> replaces the whole
  item, \<open>UpdateCommand\<close> with a \<open>SET\<close> expression upserts the named attributes in one
  step at the store, \<open>QueryCommand\<close> reads the items of one partition whose sort key has
  the given prefix in ascending sort-key order, and \<open>ScanCommand\<close> reads the table and
  returns the items that satisfy the filter expression (a comparison on an absent
  attribute is false). One call of either reads no further than the first megabyte of
  items; the services send one call and never follow \<open>LastEvaluatedKey\<close>, so what they
  get is what the first page holds. None of the commands carries a condition expression,
  so none is rejected.
\<close>

datatype update_action =
    SetUpdatedAt string
  | SetOverallStatus overall_status
  | SetProcessedPages int
  | SetFailedPages int
  | SetCompletedAt string
  | SetErrorMessage string
  | SetResultS3Key string
  | SetTotalPages int
  | SetProcessedPagesIfNotExistsPlus int int

datatype command =
    PutCommand DocumentStatus
  | GetCommand key
  | UpdateCommand key "update_action list"
  | QueryCommand string string
  | ScanCommand string overall_status int

datatype response = NoOutput | Item "DocumentStatus option" | Items "DocumentStatus list"

definition item_key :: "DocumentStatus \<Rightarrow> key" where
  "item_key it = (PK it, SK it)"

definition new_item :: "key \<Rightarrow> DocumentStatus" where
  "new_item k = \<lparr>PK = fst k, SK = snd k, fileId = None, tenantId = None, pageNumber = None,
     pageAnalysis = None, chunkIds = None, overallStatus = None, totalPages = None,
     processedPages = None, failedPages = None, startedAt = None, completedAt = None,
     errorMessage = None, resultS3Key = None, createdAt = None, updatedAt = None, ttl = None,
     GSI1PK = None, GSI1SK = None\<rparr>"

definition get_item :: "DocumentStatus list \<Rightarrow> key \<Rightarrow> DocumentStatus option" where
  "get_item tbl k = find (\<lambda>it. item_key it = k) tbl"

definition put_item :: "DocumentStatus list \<Rightarrow> DocumentStatus \<Rightarrow> DocumentStatus list" where
  "put_item tbl it = it # filter (\<lambda>x. item_key x \<noteq> item_key it) tbl"

fun apply_action :: "update_action \<Rightarrow> DocumentStatus \<Rightarrow> DocumentStatus" where
  "apply_action (SetUpdatedAt v) it = it\<lparr>updatedAt := Some v\<rparr>"
| "apply_action (SetOverallStatus v) it = it\<lparr>overallStatus := Some v\<rparr>"
| "apply_action (SetProcessedPages v) it = it\<lparr>processedPages := Some v\<rparr>"
| "apply_action (SetFailedPages v) it = it\<lparr>failedPages := Some v\<rparr>"
| "apply_action (SetCompletedAt v) it = it\<lparr>completedAt := Some v\<rparr>"
| "apply_action (SetErrorMessage v) it = it\<lparr>errorMessage := Some v\<rparr>"
| "apply_action (SetResultS3Key v) it = it\<lparr>resultS3Key := Some v\<rparr>"
| "apply_action (SetTotalPages v) it = it\<lparr>totalPages := Some v\<rparr>"
| "apply_action (SetProcessedPagesIfNotExistsPlus zero inc) it =
     it\<lparr>processedPages := Some ((case processedPages it of None \<Rightarrow> zero | Some p \<Rightarrow> p) + inc)\<rparr>"

definition apply_actions :: "update_action list \<Rightarrow> DocumentStatus \<Rightarrow> DocumentStatus" where
  "apply_actions acts it = fold apply_action acts it"

definition update_item :: "DocumentStatus list \<Rightarrow> key \<Rightarrow> update_action list \<Rightarrow> DocumentStatus list" where
  "update_item tbl k acts =
     (case get_item tbl k of
        None \<Rightarrow> apply_actions acts (new_item k) # tbl
      | Some _ \<Rightarrow> map (\<lambda>x. if item_key x = k then apply_actions acts x else x) tbl)"

definition begins_with :: "string \<Rightarrow> string \<Rightarrow> bool" where
  "begins_with s p \<longleftrightarrow> take (length p) s = p"

definition query_items :: "DocumentStatus list \<Rightarrow> string \<Rightarrow> string \<Rightarrow> DocumentStatus list" where
  "query_items tbl pk skp = sort_key SK (filter (\<lambda>it. PK it = pk \<and> begins_with (SK it) skp) tbl)"

definition scan_filter :: "string \<Rightarrow> overall_status \<Rightarrow> int \<Rightarrow> DocumentStatus \<Rightarrow> bool" where
  "scan_filter sk st zero it \<longleftrightarrow>
     SK it = sk \<and> overallStatus it = Some st \<and>
     (case (processedPages it, totalPages it) of
        (Some p, Some t) \<Rightarrow> p = t \<and> t > zero
      | _ \<Rightarrow> False)"

text \<open>
  The world a service method runs in: the table, the commands sent so far (oldest first),
  the objects of the results bucket, the delays slept so far, the number of calls made to
  the analysis model, the calls of \<open>aggregateResults\<close> made so far with their arguments
  (oldest first), the clock read by \<open>new Date()\<close> and \<open>Date.now()\<close>, and \<open>pageSize\<close>:
  of the items a query or scan would read, in reading order, the number that fit into the
  first megabyte.
\<close>

datatype json = JNull | JBool bool | JNum int | JStr string | JArr "json list"
  | JObj "(string \<times> json) list"

record chunk_entry =
  c_pageNumber :: "nat option"
  analysis :: json
  status :: string

record aggregatedResults =
  r_fileId :: string
  r_tenantId :: string
  processedAt :: string
  r_totalPages :: int
  successCount :: nat
  failedCount :: nat
  chunks :: "chunk_entry list"

record world =
  table :: "DocumentStatus list"
  sent :: "command list"
  resultsBucket :: "(string \<times> aggregatedResults) list"
  sleeps :: "nat list"
  modelCalls :: nat
  invoked :: "(string \<times> string \<times> int) list"
  nowISO :: string
  nowMs :: int
  pageSize :: "DocumentStatus list \<Rightarrow> nat"

definition first_page :: "world \<Rightarrow> DocumentStatus list \<Rightarrow> DocumentStatus list" where
  "first_page w items = take (pageSize w items) items"

definition send :: "command \<Rightarrow> world \<Rightarrow> response \<times> world" where
  "send c w =
     (let w' = w\<lparr>sent := sent w @ [c]\<rparr> in
      case c of
        PutCommand it \<Rightarrow> (NoOutput, w'\<lparr>table := put_item (table w) it\<rparr>)
      | GetCommand k \<Rightarrow> (Item (get_item (table w) k), w')
      | UpdateCommand k acts \<Rightarrow> (NoOutput, w'\<lparr>table := update_item (table w) k acts\<rparr>)
      | QueryCommand pk skp \<Rightarrow> (Items (first_page w (query_items (table w) pk skp)), w')
      | ScanCommand sk st zero \<Rightarrow>
          (Items (filter (scan_filter sk st zero) (first_page w (table w))), w'))"

section \<open>DocumentStatusService (database/document-status.service.ts)\<close>

datatype js_error = Error (message: "string option")

text \<open>
  A promise that can reject is a sum: \<open>Inl\<close> the error thrown, \<open>Inr\<close> the value it
  resolves to. A \<open>Promise<void>\<close> resolves to \<open>undefined\<close>, the value \<open>None\<close> below.
\<close>

definition createDocumentStatus ::
  "string \<Rightarrow> string \<Rightarrow> int \<Rightarrow> world \<Rightarrow> (js_error + DocumentStatus) \<times> world" where
  "createDocumentStatus fid tid tp w =
     (let keys = documentStatusKeys fid;
          gsiKeys = documentStatusGSI1Keys tid (nowISO w);
          item = \<lparr>PK = fst keys, SK = snd keys, fileId = Some fid, tenantId = Some tid,
            pageNumber = None, pageAnalysis = None, chunkIds = None,
            overallStatus = Some Pending, totalPages = Some tp,
            processedPages = Some 0, failedPages = Some 0,
            startedAt = Some (nowISO w), completedAt = None, errorMessage = None,
            resultS3Key = None, createdAt = Some (nowISO w), updatedAt = Some (nowISO w),
            ttl = Some (generateTTL (nowMs w) 90),
            GSI1PK = Some (fst gsiKeys), GSI1SK = Some (snd gsiKeys)\<rparr>;
          (_, w') = send (PutCommand item) w
      in (Inr item, w'))"

definition getDocumentStatus :: "string \<Rightarrow> world \<Rightarrow> DocumentStatus option \<times> world" where
  "getDocumentStatus fid w =
     (case send (GetCommand (documentStatusKeys fid)) w of
        (Item r, w') \<Rightarrow> (r, w')
      | (_, w') \<Rightarrow> (None, w'))"

record updates =
  u_overallStatus :: "overall_status option"
  u_processedPages :: "int option"
  u_failedPages :: "int option"
  u_completedAt :: "string option"
  u_errorMessage :: "string option"
  u_resultS3Key :: "string option"

definition no_updates :: updates where
  "no_updates = \<lparr>u_overallStatus = None, u_processedPages = None, u_failedPages = None,
     u_completedAt = None, u_errorMessage = None, u_resultS3Key = None\<rparr>"

definition update_entries :: "updates \<Rightarrow> update_action list" where
  "update_entries u =
     map SetOverallStatus (case u_overallStatus u of None \<Rightarrow> [] | Some v \<Rightarrow> [v]) @
     map SetProcessedPages (case u_processedPages u of None \<Rightarrow> [] | Some v \<Rightarrow> [v]) @
     map SetFailedPages (case u_failedPages u of None \<Rightarrow> [] | Some v \<Rightarrow> [v]) @
     map SetCompletedAt (case u_completedAt u of None \<Rightarrow> [] | Some v \<Rightarrow> [v]) @
     map SetErrorMessage (case u_errorMessage u of None \<Rightarrow> [] | Some v \<Rightarrow> [v]) @
     map SetResultS3Key (case u_resultS3Key u of None \<Rightarrow> [] | Some v \<Rightarrow> [v])"

definition updateDocumentStatus :: "string \<Rightarrow> updates \<Rightarrow> world \<Rightarrow> world" where
  "updateDocumentStatus fid u w =
     snd (send (UpdateCommand (documentStatusKeys fid)
                  (SetUpdatedAt (nowISO w) # update_entries u)) w)"

definition savePageAttributes ::
  "string \<Rightarrow> string \<Rightarrow> nat \<Rightarrow> string option \<Rightarrow> string list option \<Rightarrow> world
     \<Rightarrow> DocumentStatus \<times> world" where
  "savePageAttributes fid tid pn pa cids w =
     (let keys = documentPageKeys fid pn;
          item = (new_item keys)\<lparr>fileId := Some fid, tenantId := Some tid,
            pageNumber := Some pn, pageAnalysis := pa, chunkIds := cids,
            createdAt := Some (nowISO w), updatedAt := Some (nowISO w),
            ttl := Some (generateTTL (nowMs w) 90)\<rparr>
      in (item, snd (send (PutCommand item) w)))"

definition getDocumentPages :: "string \<Rightarrow> world \<Rightarrow> DocumentStatus list \<times> world" where
  "getDocumentPages fid w =
     (case send (QueryCommand (''DOC#'' @ fid) ''PAGE#'') w of
        (Items r, w') \<Rightarrow> (r, w')
      | (_, w') \<Rightarrow> ([], w'))"

definition incrementProcessedPages :: "string \<Rightarrow> world \<Rightarrow> int option \<times> world" where
  "incrementProcessedPages fid w =
     (None, snd (send (UpdateCommand (documentStatusKeys fid)
                         [SetProcessedPagesIfNotExistsPlus 0 1, SetUpdatedAt (nowISO w)]) w))"

definition updateStatus :: "string \<Rightarrow> string \<Rightarrow> overall_status \<Rightarrow> world \<Rightarrow> world" where
  "updateStatus fid tid st w = updateDocumentStatus fid (no_updates\<lparr>u_overallStatus := Some st\<rparr>) w"

definition updateTotalPages :: "string \<Rightarrow> string \<Rightarrow> int \<Rightarrow> world \<Rightarrow> world" where
  "updateTotalPages fid tid tp w =
     snd (send (UpdateCommand (documentStatusKeys fid)
                  [SetTotalPages tp, SetUpdatedAt (nowISO w)]) w)"

definition getReadyForAggregation :: "world \<Rightarrow> DocumentStatus list \<times> world" where
  "getReadyForAggregation w =
     (case send (ScanCommand ''STATUS'' Processing 0) w of
        (Items r, w') \<Rightarrow> (r, w')
      | (_, w') \<Rightarrow> ([], w'))"

text \<open>The status record of a document as the table holds it.\<close>

definition status_record :: "world \<Rightarrow> string \<Rightarrow> DocumentStatus option" where
  "status_record w fid = get_item (table w) (documentStatusKeys fid)"

definition counter :: "world \<Rightarrow> string \<Rightarrow> int option" where
  "counter w fid = (case status_record w fid of None \<Rightarrow> None | Some it \<Rightarrow> processedPages it)"

section \<open>Collaborators\<close>

text \<open>
  What the program does not decide is an input: the S3 client (\<open>s3_get\<close> answers a
  \<open>GetObjectCommand\<close> with a rejected send, a body stream that fails, or the bytes;
  \<open>s3_put\<close> answers a \<open>PutObjectCommand\<close> with an error or nothing), the PDF parser
  (the page count and the page texts, or an error), the analysis model (the text of its
  \<open>n\<close>-th response, or the error thrown on the way to it), and \<open>JSON.parse\<close> and
  \<open>JSON.stringify\<close>. The table itself always answers.
\<close>

record env =
  s3_get :: "string \<Rightarrow> string \<Rightarrow> js_error + (js_error + string)"
  s3_put :: "string \<Rightarrow> string \<Rightarrow> js_error option"
  pdf_parse :: "string \<Rightarrow> js_error + (int \<times> string list)"
  generateContent :: "nat \<Rightarrow> string \<Rightarrow> js_error + string"
  JSON_parse :: "string \<Rightarrow> js_error + json"
  JSON_stringify :: "json \<Rightarrow> string"

text \<open>An absent value inside a template literal prints as \<open>undefined\<close>.\<close>

definition js_str :: "string option \<Rightarrow> string" where
  "js_str v = (case v of None \<Rightarrow> ''undefined'' | Some s \<Rightarrow> s)"

text \<open>
  The \<open>TypeError\<close> of reading a property of \<open>undefined\<close> or \<open>null\<close>, with the message
  V8 gives it: \<open>Cannot read properties of undefined (reading 'S')\<close>.
\<close>

definition TypeError :: "string \<Rightarrow> string \<Rightarrow> js_error" where
  "TypeError v prop =
     Error (Some (''Cannot read properties of '' @ v @ '' (reading '' @ [CHR 0x27] @ prop @
                  [CHR 0x27] @ '')''))"

subsection \<open>S3Service (storage/s3.service.ts)\<close>

definition uploadFile :: "env \<Rightarrow> string \<Rightarrow> string \<Rightarrow> aggregatedResults \<Rightarrow> world
    \<Rightarrow> (js_error + string \<times> string) \<times> world" where
  "uploadFile e bucket k body w =
     (case s3_put e bucket k of
        Some err \<Rightarrow> (Inl (Error (Some (''S3 upload failed: '' @ js_str (message err)))), w)
      | None \<Rightarrow> (Inr (k, bucket),
                  w\<lparr>resultsBucket := (k, body) # filter (\<lambda>ob. fst ob \<noteq> k) (resultsBucket w)\<rparr>))"

definition results_bucket_name :: string where
  "results_bucket_name = ''document-orchestrator-results''"

definition uploadResults :: "env \<Rightarrow> string \<Rightarrow> string \<Rightarrow> aggregatedResults \<Rightarrow> world
    \<Rightarrow> (js_error + string \<times> string) \<times> world" where
  "uploadResults e fid tid results w =
     uploadFile e results_bucket_name (tid @ ''/'' @ fid @ ''/results.json'') results w"

definition downloadFile :: "env \<Rightarrow> string \<Rightarrow> string \<Rightarrow> js_error + string" where
  "downloadFile e bucket k =
     (case s3_get e bucket k of
        Inl err \<Rightarrow> Inl (Error (Some (''S3 download failed: '' @ js_str (message err))))
      | Inr (Inl err) \<Rightarrow> Inl err
      | Inr (Inr buf) \<Rightarrow> Inr buf)"

section \<open>GeminiService.analyzeChunk\<close>

text \<open>\<open>String.prototype.includes\<close>.\<close>

fun includes_str :: "string \<Rightarrow> string \<Rightarrow> bool" where
  "includes_str [] sub = (sub = [])"
| "includes_str (c # cs) sub = (take (length sub) (c # cs) = sub \<or> includes_str cs sub)"

text \<open>
  \<open>responseText.match(/\{[\s\S]*\}/)\<close>: the greedy match from the first opening brace to
  the last closing brace after it, if there is one.
\<close>

definition json_match :: "string \<Rightarrow> string option" where
  "json_match s =
     (let t = dropWhile (\<lambda>c. c \<noteq> CHR 0x7B) s;
          r = rev (dropWhile (\<lambda>c. c \<noteq> CHR 0x7D) (rev t))
      in if r = [] then None else Some r)"

definition attempt :: "env \<Rightarrow> string \<Rightarrow> nat \<Rightarrow> js_error + json" where
  "attempt e text n =
     (case generateContent e n text of
        Inl err \<Rightarrow> Inl err
      | Inr responseText \<Rightarrow>
          (case json_match responseText of
             Some m \<Rightarrow> JSON_parse e m
           | None \<Rightarrow> JSON_parse e responseText))"

definition is_rate_limit :: "js_error \<Rightarrow> bool" where
  "is_rate_limit err = (case message err of None \<Rightarrow> False | Some m \<Rightarrow> includes_str m ''429'')"

fun analyzeChunk :: "env \<Rightarrow> string \<Rightarrow> nat \<Rightarrow> nat \<Rightarrow> world \<Rightarrow> (js_error + json) \<times> world" where
  "analyzeChunk e text retries delay w =
     (let w1 = w\<lparr>modelCalls := Suc (modelCalls w)\<rparr> in
      case attempt e text (modelCalls w) of
        Inr j \<Rightarrow> (Inr j, w1)
      | Inl err \<Rightarrow>
          if is_rate_limit err \<and> retries > 0
          then analyzeChunk e text (retries - 1) (delay * 2) (w1\<lparr>sleeps := sleeps w1 @ [delay]\<rparr>)
          else (Inl err, w1))"

declare analyzeChunk.simps [simp del]

section \<open>ConsumerService.processDocument\<close>

definition failure_marker :: "env \<Rightarrow> world \<Rightarrow> string" where
  "failure_marker e w =
     JSON_stringify e (JObj [(''error'', JStr ''Analysis failed''), (''timestamp'', JStr (nowISO w))])"

text \<open>
  One iteration of the page loop: the \<open>try\<close> (analysis, then the page record), the
  \<open>catch\<close> (the failure placeholder), the \<open>finally\<close> (the counter), and the pause after
  it. The result is what the iteration throws (\<open>Inl\<close>) or \<open>Inr ()\<close>.
\<close>

definition process_page :: "env \<Rightarrow> string \<Rightarrow> string \<Rightarrow> nat \<Rightarrow> string \<Rightarrow> world
    \<Rightarrow> (js_error + unit) \<times> world" where
  "process_page e fid tid i chunk w =
     (let w2 = (case analyzeChunk e chunk 3 2000 w of
                  (Inr result, w1) \<Rightarrow>
                    snd (savePageAttributes fid tid (i + 1) (Some (JSON_stringify e result)) None w1)
                | (Inl chunkError, w1) \<Rightarrow>
                    snd (savePageAttributes fid tid (i + 1) (Some (failure_marker e w1)) None w1));
          w3 = snd (incrementProcessedPages fid w2)
      in (Inr (), w3\<lparr>sleeps := sleeps w3 @ [1000]\<rparr>))"

fun page_loop :: "env \<Rightarrow> string \<Rightarrow> string \<Rightarrow> string list \<Rightarrow> nat \<Rightarrow> world
    \<Rightarrow> (js_error + unit) \<times> world" where
  "page_loop e fid tid [] i w = (Inr (), w)"
| "page_loop e fid tid (chunk # rest) i w =
     (case process_page e fid tid i chunk w of
        (Inl err, w') \<Rightarrow> (Inl err, w')
      | (Inr _, w') \<Rightarrow> page_loop e fid tid rest (i + 1) w')"

definition processDocument :: "env \<Rightarrow> string \<Rightarrow> string \<Rightarrow> string \<Rightarrow> string \<Rightarrow> world \<Rightarrow> world" where
  "processDocument e fid tid s3Key bucket w =
     (let w1 = updateStatus fid tid Processing w in
      case downloadFile e bucket s3Key of
        Inl err \<Rightarrow> updateStatus fid tid Failed w1
      | Inr fileBuffer \<Rightarrow>
          (case pdf_parse e fileBuffer of
             Inl err \<Rightarrow> updateStatus fid tid Failed w1
           | Inr (numPages, pageTexts) \<Rightarrow>
               (case page_loop e fid tid pageTexts 0 (updateTotalPages fid tid numPages w1) of
                  (Inl err, w') \<Rightarrow> updateStatus fid tid Failed w'
                | (Inr _, w') \<Rightarrow> w')))"

section \<open>AggregatorService.aggregateResults\<close>

definition truthy_str :: "string option \<Rightarrow> bool" where
  "truthy_str v = (case v of None \<Rightarrow> False | Some s \<Rightarrow> s \<noteq> [])"

fun truthy :: "json option \<Rightarrow> bool" where
  "truthy None = False"
| "truthy (Some JNull) = False"
| "truthy (Some (JBool b)) = b"
| "truthy (Some (JNum n)) = (n \<noteq> 0)"
| "truthy (Some (JStr s)) = (s \<noteq> [])"
| "truthy (Some (JArr xs)) = True"
| "truthy (Some (JObj kvs)) = True"

text \<open>Reading the property \<open>error\<close>: a \<open>TypeError\<close> on \<open>null\<close>, \<open>undefined\<close> where absent.\<close>

fun error_prop :: "json \<Rightarrow> js_error + json option" where
  "error_prop JNull = Inl (TypeError ''null'' ''error'')"
| "error_prop (JObj kvs) = Inr (map_of kvs ''error'')"
| "error_prop j = Inr None"

definition parsed_error :: "env \<Rightarrow> string \<Rightarrow> js_error + bool" where
  "parsed_error e s =
     (case JSON_parse e s of
        Inl err \<Rightarrow> Inl err
      | Inr j \<Rightarrow> (case error_prop j of Inl err \<Rightarrow> Inl err | Inr v \<Rightarrow> Inr (truthy v)))"

definition is_success :: "env \<Rightarrow> DocumentStatus \<Rightarrow> js_error + bool" where
  "is_success e p =
     (if truthy_str (pageAnalysis p)
      then (case parsed_error e (the (pageAnalysis p)) of Inl err \<Rightarrow> Inl err | Inr b \<Rightarrow> Inr (\<not> b))
      else Inr False)"

definition is_failed :: "env \<Rightarrow> DocumentStatus \<Rightarrow> js_error + bool" where
  "is_failed e p =
     (if truthy_str (pageAnalysis p) then parsed_error e (the (pageAnalysis p)) else Inr False)"

definition chunk_of :: "env \<Rightarrow> DocumentStatus \<Rightarrow> js_error + chunk_entry" where
  "chunk_of e p =
     (case (if truthy_str (pageAnalysis p) then JSON_parse e (the (pageAnalysis p)) else Inr JNull) of
        Inl err \<Rightarrow> Inl err
      | Inr a \<Rightarrow>
          (case is_failed e p of
             Inl err \<Rightarrow> Inl err
           | Inr b \<Rightarrow> Inr \<lparr>c_pageNumber = pageNumber p, analysis = a,
                           status = (if b then ''failed'' else ''success'')\<rparr>))"

fun traverse :: "('a \<Rightarrow> js_error + 'b) \<Rightarrow> 'a list \<Rightarrow> js_error + 'b list" where
  "traverse f [] = Inr []"
| "traverse f (x # xs) =
     (case f x of
        Inl err \<Rightarrow> Inl err
      | Inr y \<Rightarrow> (case traverse f xs of Inl err \<Rightarrow> Inl err | Inr ys \<Rightarrow> Inr (y # ys)))"

definition count_where :: "('a \<Rightarrow> js_error + bool) \<Rightarrow> 'a list \<Rightarrow> js_error + nat" where
  "count_where f xs =
     (case traverse f xs of Inl err \<Rightarrow> Inl err | Inr bs \<Rightarrow> Inr (length (filter id bs)))"

definition build_results :: "env \<Rightarrow> string \<Rightarrow> string \<Rightarrow> int \<Rightarrow> string \<Rightarrow> DocumentStatus list
    \<Rightarrow> js_error + aggregatedResults" where
  "build_results e fid tid tp now pages =
     (case count_where (is_success e) pages of
        Inl err \<Rightarrow> Inl err
      | Inr sc \<Rightarrow>
          (case count_where (is_failed e) pages of
             Inl err \<Rightarrow> Inl err
           | Inr fc \<Rightarrow>
               (case traverse (chunk_of e) pages of
                  Inl err \<Rightarrow> Inl err
                | Inr cs \<Rightarrow> Inr \<lparr>r_fileId = fid, r_tenantId = tid, processedAt = now,
                                 r_totalPages = tp, successCount = sc, failedCount = fc,
                                 chunks = cs\<rparr>)))"

definition aggregation_failed :: "string \<Rightarrow> js_error \<Rightarrow> world \<Rightarrow> (js_error + unit) \<times> world" where
  "aggregation_failed fid err w =
     (Inl err, updateDocumentStatus fid (no_updates\<lparr>u_overallStatus := Some Failed,
        u_errorMessage := Some (''Aggregation failed: '' @ js_str (message err))\<rparr>) w)"

definition aggregateResults :: "env \<Rightarrow> string \<Rightarrow> string \<Rightarrow> int \<Rightarrow> world
    \<Rightarrow> (js_error + unit) \<times> world" where
  "aggregateResults e fid tid tp w =
     (let w1 = updateStatus fid tid Aggregating (w\<lparr>invoked := invoked w @ [(fid, tid, tp)]\<rparr>);
          (pages, w2) = getDocumentPages fid w1
      in if int (length pages) < tp
         then (Inr (), updateStatus fid tid Processing w2)
         else (case build_results e fid tid tp (nowISO w2) pages of
                 Inl err \<Rightarrow> aggregation_failed fid err w2
               | Inr aggregated \<Rightarrow>
                   (case uploadResults e fid tid aggregated w2 of
                      (Inl err, w3) \<Rightarrow> aggregation_failed fid err w3
                    | (Inr _, w3) \<Rightarrow>
                        (Inr (), updateDocumentStatus fid (no_updates\<lparr>
                           u_overallStatus := Some Completed,
                           u_completedAt := Some (nowISO w3),
                           u_resultS3Key := Some (tid @ ''/'' @ fid @ ''/results.json'')\<rparr>) w3))))"

section \<open>CompletionWatcher: the stream handler and the poller\<close>

datatype event_name = INSERT | MODIFY | REMOVE

record stream_record =
  eventName :: event_name
  NewImage :: "DocumentStatus option"
  OldImage :: "DocumentStatus option"

text \<open>
  The decision the handler takes on one stream record, up to the call of the aggregator:
  \<open>Inr None\<close> is \<open>continue\<close> (or the end of the body without a call), \<open>Inr (Some args)\<close>
  is the call \<open>aggregateResults args\<close>, \<open>Inl\<close> is the \<open>TypeError\<close> of reading \<open>.S\<close> or
  \<open>.N\<close> of an attribute the image does not have. \<open>parseInt\<close> of the decimal text of an
  integer attribute is that integer.
\<close>

definition handler_decision :: "stream_record \<Rightarrow> js_error + (string \<times> string \<times> int) option" where
  "handler_decision r =
     (if eventName r \<noteq> MODIFY then Inr None
      else case (NewImage r, OldImage r) of
        (Some newImage, Some oldImage) \<Rightarrow>
          if SK newImage \<noteq> ''STATUS'' then Inr None
          else (case fileId newImage of
                  None \<Rightarrow> Inl (TypeError ''undefined'' ''S'')
                | Some f \<Rightarrow>
              (case tenantId newImage of
                  None \<Rightarrow> Inl (TypeError ''undefined'' ''S'')
                | Some t \<Rightarrow>
              (case totalPages newImage of
                  None \<Rightarrow> Inl (TypeError ''undefined'' ''N'')
                | Some tp \<Rightarrow>
              (case processedPages newImage of
                  None \<Rightarrow> Inl (TypeError ''undefined'' ''N'')
                | Some pp \<Rightarrow>
              (case overallStatus newImage of
                  None \<Rightarrow> Inl (TypeError ''undefined'' ''S'')
                | Some st \<Rightarrow>
                    if pp = tp \<and> tp > 0 \<and> st = Processing then Inr (Some (f, t, tp))
                    else Inr None)))))
      | _ \<Rightarrow> Inr None)"





section \<open>Example worlds\<close>

definition empty_world :: world where
  "empty_world = \<lparr>table = [], sent = [], resultsBucket = [], sleeps = [], modelCalls = 0,
     invoked = [], nowISO = ''2024-01-01T00:00:00.000Z'', nowMs = 1704067200000,
     pageSize = (\<lambda>items. 1000)\<rparr>"

definition world_created :: world where
  "world_created = snd (createDocumentStatus ''d'' ''t'' 0 empty_world)"

definition world_tested :: world where
  "world_tested = snd (incrementProcessedPages ''d'' (snd (createDocumentStatus ''d'' ''t'' 10 empty_world)))"

definition zero_page_record :: DocumentStatus where
  "zero_page_record = (new_item (documentStatusKeys ''d''))\<lparr>fileId := Some ''d'',
     tenantId := Some ''t'', overallStatus := Some Processing, totalPages := Some 0,
     processedPages := Some 0, failedPages := Some 0\<rparr>"

definition ready_record :: DocumentStatus where
  "ready_record = (new_item (documentStatusKeys ''d''))\<lparr>fileId := Some ''d'',
     tenantId := Some ''t'', overallStatus := Some Processing, totalPages := Some 3,
     processedPages := Some 3, failedPages := Some 0\<rparr>"

definition world_ready :: world where
  "world_ready = empty_world\<lparr>table := [ready_record]\<rparr>"

definition env_no_object :: env where
  "env_no_object = \<lparr>s3_get = (\<lambda>bucket k. Inl (Error (Some ''NoSuchKey''))),
     s3_put = (\<lambda>bucket k. None),
     pdf_parse = (\<lambda>buf. Inr (0, [])),
     generateContent = (\<lambda>n text. Inr ''{}''),
     JSON_parse = (\<lambda>s. Inr (JObj [])),
     JSON_stringify = (\<lambda>j. ''{}'')\<rparr>"

definition world_download_failed :: world where
  "world_download_failed =
     processDocument env_no_object ''d'' ''t'' ''t/d/a.pdf'' ''document-orchestrator-pdfs'' world_created"

definition env_flaky :: env where
  "env_flaky = \<lparr>s3_get = (\<lambda>bucket k. Inr (Inr ''%PDF'')),
     s3_put = (\<lambda>bucket k. None),
     pdf_parse = (\<lambda>buf. Inr (2, [''page one'', ''page two''])),
     generateContent = (\<lambda>n text. if n = 0 then Inr ''{}'' else Inl (Error (Some ''500 Internal''))),
     JSON_parse = (\<lambda>s. Inr (JObj [])),
     JSON_stringify = (\<lambda>j. case j of JObj [] \<Rightarrow> ''{}'' | _ \<Rightarrow> ''{error}'')\<rparr>"

fun retries_taken :: "env \<Rightarrow> string \<Rightarrow> nat \<Rightarrow> nat \<Rightarrow> nat" where
  "retries_taken e tx n 0 = 0"
| "retries_taken e tx n (Suc r) =
     (case attempt e tx n of
        Inl err \<Rightarrow> if is_rate_limit err then Suc (retries_taken e tx (Suc n) r) else 0
      | Inr j \<Rightarrow> 0)"

definition env_rate_limited :: env where
  "env_rate_limited = \<lparr>s3_get = (\<lambda>bucket k. Inr (Inr ''%PDF'')),
     s3_put = (\<lambda>bucket k. None),
     pdf_parse = (\<lambda>buf. Inr (1, [''page one''])),
     generateContent = (\<lambda>n tx. Inl (Error (Some ''429 Too Many Requests''))),
     JSON_parse = (\<lambda>s. Inr (JObj [])),
     JSON_stringify = (\<lambda>j. ''{}'')\<rparr>"




text \<open>
  An answer of the model that is not valid JSON: an object of one member followed by a comma,
  430 characters long, so that the parser stops at the closing brace at offset 429. The
  message of the \<open>SyntaxError\<close> is the one of the deployed runtime (\<open>nodejs18.x\<close>).
\<close>

definition bad_response :: string where
  "bad_response = [CHR 0x7B, CHR 0x22] @ ''summary'' @ [CHR 0x22] @ '': '' @ [CHR 0x22] @
     replicate 414 (CHR ''a'') @ [CHR 0x22] @ '',}''"

definition parse_error :: js_error where
  "parse_error = Error (Some ''Unexpected token } in JSON at position 429'')"

definition env_bad_json :: env where
  "env_bad_json = \<lparr>s3_get = (\<lambda>bucket k. Inr (Inr ''%PDF'')),
     s3_put = (\<lambda>bucket k. None),
     pdf_parse = (\<lambda>buf. Inr (1, [''page one''])),
     generateContent = (\<lambda>n tx. Inr bad_response),
     JSON_parse = (\<lambda>s. if s = bad_response then Inl parse_error else Inr (JObj [])),
     JSON_stringify = (\<lambda>j. ''{}'')\<rparr>"




section \<open>Sort keys of page records\<close>

lemma toString_small: "n < 10 \<Longrightarrow> toString n = [digit_char n]"
  by simp

lemma toString_large: "10 \<le> n \<Longrightarrow> toString n = toString (n div 10) @ [digit_char (n mod 10)]"
  by simp

declare toString.simps [simp del]

lemma digit_char_less: "a < 10 \<Longrightarrow> b < 10 \<Longrightarrow> digit_char a < digit_char b \<longleftrightarrow> a < b"
  by (simp add: digit_char_def less_char_def)

lemma digit_char_eq: "a < 10 \<Longrightarrow> b < 10 \<Longrightarrow> digit_char a = digit_char b \<longleftrightarrow> a = b"
proof
  assume a: "a < 10" "b < 10" and e: "digit_char a = digit_char b"
  from e have "(of_char (digit_char a) :: nat) = of_char (digit_char b)" by simp
  with a show "a = b" by (simp add: digit_char_def)
qed simp

lemma digit_char_0: "digit_char 0 = CHR ''0''" by code_simp
lemma digit_char_1: "digit_char 1 = CHR ''1''" by code_simp
lemma digit_char_2: "digit_char 2 = CHR ''2''" by code_simp
lemma digit_char_3: "digit_char 3 = CHR ''3''" by code_simp
lemma digit_char_4: "digit_char 4 = CHR ''4''" by code_simp
lemma digit_char_5: "digit_char 5 = CHR ''5''" by code_simp
lemma digit_char_6: "digit_char 6 = CHR ''6''" by code_simp
lemma digit_char_7: "digit_char 7 = CHR ''7''" by code_simp
lemma digit_char_8: "digit_char 8 = CHR ''8''" by code_simp
lemma digit_char_9: "digit_char 9 = CHR ''9''" by code_simp

lemma digit_char_Suc_0: "digit_char (Suc 0) = CHR ''1''"
  using digit_char_1 by simp

lemmas digit_char_numeral = digit_char_0 digit_char_1 digit_char_2 digit_char_3 digit_char_4
  digit_char_5 digit_char_6 digit_char_7 digit_char_8 digit_char_9 digit_char_Suc_0

lemma replicate_small: "replicate 3 c = [c, c, c]" "replicate 2 c = [c, c]"
  by (simp_all add: numeral_3_eq_3 numeral_2_eq_2)

lemmas toString_eval = toString_large toString_small padStart_def digit_char_numeral
  replicate_small

lemma pad_10000: "padStart 4 CHR ''0'' (toString 10000) = ''10000''"
  by (simp add: toString_eval)

lemma pad_9999: "padStart 4 CHR ''0'' (toString 9999) = ''9999''"
  by (simp add: toString_eval)

lemma pad_9: "padStart 4 CHR ''0'' (toString 9) = ''0009''"
  by (simp add: toString_eval)

lemma pad_10: "padStart 4 CHR ''0'' (toString 10) = ''0010''"
  by (simp add: toString_eval)

definition key4 :: "nat \<Rightarrow> string" where
  "key4 n = [digit_char (n div 1000), digit_char (n div 100 mod 10),
             digit_char (n div 10 mod 10), digit_char (n mod 10)]"

lemma padded_four:
  assumes "n < 10000"
  shows "padStart 4 CHR ''0'' (toString n) = key4 n"
proof -
  consider "n < 10" | "10 \<le> n" "n < 100" | "100 \<le> n" "n < 1000" | "1000 \<le> n"
    by linarith
  then show ?thesis
  proof cases
    case 1
    then show ?thesis
      by (simp add: toString_small padStart_def key4_def digit_char_0 replicate_small)
  next
    case 2
    then have "n div 10 < 10" by simp
    with 2 show ?thesis
      by (simp add: toString_large toString_small padStart_def key4_def digit_char_0 replicate_small)
  next
    case 3
    then have a: "10 \<le> n" "10 \<le> n div 10" "n div 10 div 10 < 10" by simp_all
    have b: "n div 10 div 10 = n div 100" by (simp add: div_mult2_eq)
    from 3 a b show ?thesis
      by (simp add: toString_large toString_small padStart_def key4_def digit_char_0 replicate_small)
  next
    case 4
    with assms have a: "10 \<le> n" "10 \<le> n div 10" "10 \<le> n div 10 div 10"
      "n div 10 div 10 div 10 < 10" by simp_all
    have b: "n div 10 div 10 = n div 100" "n div 100 div 10 = n div 1000"
      by (simp_all add: div_mult2_eq)
    have c: "n div 1000 < 10" using assms by simp
    from a b c show ?thesis
      by (simp add: toString_large toString_small padStart_def key4_def)
  qed
qed

lemma lex_step:
  fixes m n :: nat
  assumes "m < n"
  shows "m div 10 < n div 10 \<or> (m div 10 = n div 10 \<and> m mod 10 < n mod 10)"
proof (cases "m div 10 = n div 10")
  case True
  have "m = 10 * (m div 10) + m mod 10" "n = 10 * (n div 10) + n mod 10" by simp_all
  with True assms have "m mod 10 < n mod 10" by linarith
  with True show ?thesis by simp
next
  case False
  moreover have "m div 10 \<le> n div 10" using assms by (simp add: div_le_mono)
  ultimately show ?thesis by linarith
qed

lemma div_chain: "(x::nat) div 10 div 10 = x div 100" "(x::nat) div 100 div 10 = x div 1000"
  by (simp_all add: div_mult2_eq)

lemma digits_lex:
  fixes m n :: nat
  assumes "m < n"
  shows "m div 1000 < n div 1000 \<or> m div 1000 = n div 1000 \<and>
        (m div 100 mod 10 < n div 100 mod 10 \<or> m div 100 mod 10 = n div 100 mod 10 \<and>
        (m div 10 mod 10 < n div 10 mod 10 \<or> m div 10 mod 10 = n div 10 mod 10 \<and>
         m mod 10 < n mod 10))"
proof -
  from lex_step [OF assms] consider
    (A) "m div 10 < n div 10" | (B) "m div 10 = n div 10" "m mod 10 < n mod 10" by blast
  then show ?thesis
  proof cases
    case B
    from B(1) have "m div 10 div 10 = n div 10 div 10" by simp
    then have e2: "m div 100 = n div 100" by (simp only: div_chain)
    then have "m div 100 div 10 = n div 100 div 10" by simp
    then have e3: "m div 1000 = n div 1000" by (simp only: div_chain)
    from B e2 e3 show ?thesis by simp
  next
    case A
    from lex_step [OF A] consider
      (A1) "m div 100 < n div 100"
      | (B1) "m div 100 = n div 100" "m div 10 mod 10 < n div 10 mod 10"
      by (auto simp only: div_chain)
    then show ?thesis
    proof cases
      case B1
      from B1(1) have "m div 100 div 10 = n div 100 div 10" by simp
      then have e3: "m div 1000 = n div 1000" by (simp only: div_chain)
      from B1 e3 show ?thesis by simp
    next
      case A1
      from lex_step [OF A1] show ?thesis
        by (auto simp only: div_chain)
    qed
  qed
qed

lemma key4_less:
  assumes "m < n" "n < 10000"
  shows "key4 m < key4 n"
proof -
  have d: "m div 1000 < 10" "n div 1000 < 10" "m div 100 mod 10 < 10" "n div 100 mod 10 < 10"
    "m div 10 mod 10 < 10" "n div 10 mod 10 < 10" "m mod 10 < 10" "n mod 10 < 10"
    using assms by simp_all
  from digits_lex [OF assms(1)] show ?thesis
    unfolding key4_def using d by (simp add: digit_char_less digit_char_eq)
qed
lemma page_prefix_less: "''PAGE#'' @ a < ''PAGE#'' @ b \<longleftrightarrow> a < b"
  by simp

lemma page_key_less:
  assumes "m < n" "n < 10000"
  shows "snd (documentPageKeys fid m) < snd (documentPageKeys fid n)"
proof -
  from assms have "m < 10000" by simp
  then show ?thesis
    using assms by (simp add: documentPageKeys_def padded_four key4_less)
qed

section \<open>Properties\<close>

text \<open>
  C10. For page numbers \<open>m < n \<le> 9999\<close> of one document the sort keys made by
  \<open>documentPageKeys\<close> are distinct and ordered, as strings, like the page numbers; from
  page 10000 on the agreement is lost: the key of page 10000 sorts before the key of page
  9999.
\<close>

theorem documentPageKeys_order:
  "(\<forall>m n. m < n \<and> n \<le> 9999 \<longrightarrow>
      snd (documentPageKeys fid m) < snd (documentPageKeys fid n) \<and>
      documentPageKeys fid m \<noteq> documentPageKeys fid n) \<and>
   snd (documentPageKeys fid 10000) < snd (documentPageKeys fid 9999)"
proof -
  have "snd (documentPageKeys fid m) < snd (documentPageKeys fid n) \<and>
        documentPageKeys fid m \<noteq> documentPageKeys fid n" if "m < n" "n \<le> 9999" for m n
  proof -
    from that have "snd (documentPageKeys fid m) < snd (documentPageKeys fid n)"
      by (intro page_key_less) simp_all
    then show ?thesis by auto
  qed
  moreover have "snd (documentPageKeys fid 10000) < snd (documentPageKeys fid 9999)"
    by (simp add: documentPageKeys_def pad_10000 pad_9999)
  ultimately show ?thesis by blast
qed

theorem documentPageKeys_order_witness:
  "snd (documentPageKeys ''d'' 9) = ''PAGE#0009'' \<and>
   snd (documentPageKeys ''d'' 10) = ''PAGE#0010'' \<and>
   snd (documentPageKeys ''d'' 9) < snd (documentPageKeys ''d'' 10) \<and>
   documentPageKeys ''d'' 9 \<noteq> documentPageKeys ''d'' 10"
proof -
  have "(9::nat) < 10 \<and> (10::nat) \<le> 9999" by simp
  with documentPageKeys_order [of "''d''"]
  have "snd (documentPageKeys ''d'' 9) < snd (documentPageKeys ''d'' 10) \<and>
        documentPageKeys ''d'' 9 \<noteq> documentPageKeys ''d'' 10" by blast
  moreover have "snd (documentPageKeys ''d'' 9) = ''PAGE#0009''"
    "snd (documentPageKeys ''d'' 10) = ''PAGE#0010''"
    by (simp_all add: documentPageKeys_def pad_9 pad_10)
  ultimately show ?thesis by blast
qed

section \<open>The table\<close>

lemma item_key_apply_action [simp]: "item_key (apply_action a it) = item_key it"
  by (cases a) (simp_all add: item_key_def)

lemma item_key_apply_actions [simp]: "item_key (apply_actions acts it) = item_key it"
  unfolding apply_actions_def by (induction acts arbitrary: it) simp_all

lemma item_key_new_item [simp]: "item_key (new_item k) = k"
  by (simp add: item_key_def new_item_def)

lemma find_map_same_key:
  assumes "\<And>x. item_key (g x) = item_key x"
  shows "find (\<lambda>it. item_key it = k) (map (\<lambda>x. if item_key x = k then g x else x) tbl)
         = map_option g (find (\<lambda>it. item_key it = k) tbl)"
  using assms by (induction tbl) simp_all

lemma get_item_update_item:
  "get_item (update_item tbl k acts) k =
     Some (apply_actions acts (case get_item tbl k of None \<Rightarrow> new_item k | Some it \<Rightarrow> it))"
proof (cases "get_item tbl k")
  case None
  then show ?thesis by (simp add: update_item_def get_item_def)
next
  case (Some it)
  then show ?thesis
    by (simp add: update_item_def get_item_def find_map_same_key)
qed

lemma get_item_put_item: "get_item (put_item tbl it) (item_key it) = Some it"
  by (simp add: get_item_def put_item_def)

lemma table_send_update:
  "table (snd (send (UpdateCommand k acts) w)) = update_item (table w) k acts"
  by (simp add: send_def)

lemma sent_send: "sent (snd (send c w)) = sent w @ [c]"
  by (cases c) (simp_all add: send_def)

lemma nowISO_send: "nowISO (snd (send c w)) = nowISO w"
  by (cases c) (simp_all add: send_def)

lemma counter_increment:
  "counter (snd (incrementProcessedPages fid w)) fid =
     Some ((case counter w fid of None \<Rightarrow> 0 | Some p \<Rightarrow> p) + 1)"
  by (simp add: counter_def status_record_def incrementProcessedPages_def table_send_update
      get_item_update_item apply_actions_def new_item_def split: option.splits)

lemma counter_increments:
  assumes "counter w fid = Some p"
  shows "counter (((\<lambda>w. snd (incrementProcessedPages fid w)) ^^ K) w) fid = Some (p + int K)"
proof (induction K)
  case 0
  with assms show ?case by simp
next
  case (Suc K)
  then show ?case by (simp add: counter_increment)
qed

section \<open>The processed-page counter\<close>

lemma fst_increment: "fst (incrementProcessedPages fid w) = None"
  by (simp add: incrementProcessedPages_def)

lemma sent_increment:
  "sent (snd (incrementProcessedPages fid w)) =
     sent w @ [UpdateCommand (documentStatusKeys fid)
                 [SetProcessedPagesIfNotExistsPlus 0 1, SetUpdatedAt (nowISO w)]]"
  by (simp add: incrementProcessedPages_def sent_send)

text \<open>
  C1 (as amended). \<open>incrementProcessedPages\<close> sends exactly one \<open>UpdateCommand\<close> whose
  expression adds 1 to \<open>processedPages\<close> at the store, and no read; on a status record
  whose counter is \<open>p\<close> one call leaves \<open>p + 1\<close> and \<open>K\<close> successive calls leave
  \<open>p + K\<close>. Its promise resolves to \<open>undefined\<close>: the new count is not returned.
\<close>

theorem incrementProcessedPages_atomic_add:
  assumes "counter w fid = Some p"
  shows "sent (snd (incrementProcessedPages fid w)) =
           sent w @ [UpdateCommand (documentStatusKeys fid)
                       [SetProcessedPagesIfNotExistsPlus 0 1, SetUpdatedAt (nowISO w)]] \<and>
         counter (snd (incrementProcessedPages fid w)) fid = Some (p + 1) \<and>
         counter (((\<lambda>w. snd (incrementProcessedPages fid w)) ^^ K) w) fid = Some (p + int K) \<and>
         fst (incrementProcessedPages fid w) = None"
  using assms counter_increments [OF assms, of K] fst_increment [of fid w]
    sent_increment [of fid w] counter_increment [of fid w]
  by simp

lemma createDocumentStatus_result:
  "\<exists>item. createDocumentStatus fid tid tp w =
            (Inr item, w\<lparr>sent := sent w @ [PutCommand item], table := put_item (table w) item\<rparr>) \<and>
          item_key item = documentStatusKeys fid \<and>
          overallStatus item = Some Pending \<and> totalPages item = Some tp \<and>
          processedPages item = Some 0 \<and> failedPages item = Some 0"
  by (simp add: createDocumentStatus_def Let_def send_def item_key_def)

lemma counter_created: "counter (snd (createDocumentStatus fid tid tp w)) fid = Some 0"
proof -
  from createDocumentStatus_result [of fid tid tp w] obtain item where
    "createDocumentStatus fid tid tp w =
       (Inr item, w\<lparr>sent := sent w @ [PutCommand item], table := put_item (table w) item\<rparr>)"
    "item_key item = documentStatusKeys fid" "processedPages item = Some 0" by blast
  then show ?thesis
    using get_item_put_item [of "table w" item] by (simp add: counter_def status_record_def)
qed

lemma counter_world_created: "counter world_created ''d'' = Some 0"
  by (simp add: world_created_def counter_created)

text \<open>
  C1 as stated fails: after one increment of a freshly created status record the counter
  is 1, and the value the call resolves to is not that count.
\<close>

theorem incrementProcessedPages_returns_nothing:
  "counter (snd (incrementProcessedPages ''d'' world_created)) ''d'' = Some 1 \<and>
   fst (incrementProcessedPages ''d'' world_created) \<noteq> Some 1"
  by (simp add: counter_increment counter_world_created fst_increment)

theorem incrementProcessedPages_atomic_add_witness:
  "counter world_created ''d'' = Some 0 \<and>
   counter (snd (incrementProcessedPages ''d''
      (snd (incrementProcessedPages ''d''
         (snd (incrementProcessedPages ''d'' world_created)))))) ''d'' = Some 3"
  using incrementProcessedPages_atomic_add [OF counter_world_created, of 3]
  by (simp add: counter_world_created numeral_3_eq_3)

section \<open>Creating the status record\<close>

lemma status_record_created:
  "\<exists>item. fst (createDocumentStatus fid tid tp w) = Inr item \<and>
          status_record (snd (createDocumentStatus fid tid tp w)) fid = Some item \<and>
          sent (snd (createDocumentStatus fid tid tp w)) = sent w @ [PutCommand item] \<and>
          overallStatus item = Some Pending \<and> totalPages item = Some tp \<and>
          processedPages item = Some 0 \<and> failedPages item = Some 0"
proof -
  from createDocumentStatus_result [of fid tid tp w] obtain item where
    c: "createDocumentStatus fid tid tp w =
       (Inr item, w\<lparr>sent := sent w @ [PutCommand item], table := put_item (table w) item\<rparr>)"
    and k: "item_key item = documentStatusKeys fid"
    and f: "overallStatus item = Some Pending" "totalPages item = Some tp"
      "processedPages item = Some 0" "failedPages item = Some 0"
    by blast
  from c k have "status_record (snd (createDocumentStatus fid tid tp w)) fid = Some item"
    using get_item_put_item [of "table w" item] by (simp add: status_record_def)
  with c f show ?thesis by simp
qed

text \<open>
  C8 (as amended). \<open>createDocumentStatus\<close> puts a status record with overall status
  \<open>pending\<close>, \<open>totalPages\<close> as given by the caller, and both other counters 0, with one
  unconditional \<open>PutCommand\<close>; it never fails, and whatever record the document had
  before is replaced by the new one.
\<close>

theorem createDocumentStatus_puts:
  "\<exists>item. fst (createDocumentStatus fid tid tp w) = Inr item \<and>
          status_record (snd (createDocumentStatus fid tid tp w)) fid = Some item \<and>
          sent (snd (createDocumentStatus fid tid tp w)) = sent w @ [PutCommand item] \<and>
          overallStatus item = Some Pending \<and> totalPages item = Some tp \<and>
          processedPages item = Some 0 \<and> failedPages item = Some 0"
  by (rule status_record_created)

lemma counter_world_tested: "counter world_tested ''d'' = Some 1"
  by (simp add: world_tested_def counter_increment counter_created)

text \<open>
  C8 as stated fails: created with 10 pages (as the service's test does) the record holds
  \<open>totalPages = 10\<close>, and a second call for the same document, after one page was
  counted, does not fail but resets the counter to 0.
\<close>

theorem createDocumentStatus_second_call:
  "counter world_tested ''d'' = Some 1 \<and>
   \<not> isl (fst (createDocumentStatus ''d'' ''t'' 10 world_tested)) \<and>
   counter (snd (createDocumentStatus ''d'' ''t'' 10 world_tested)) ''d'' = Some 0 \<and>
   map_option totalPages (status_record (snd (createDocumentStatus ''d'' ''t'' 10 world_tested)) ''d'')
     = Some (Some 10)"
proof -
  from status_record_created [of "''d''" "''t''" 10 world_tested]
  show ?thesis by (auto simp add: counter_world_tested counter_created)
qed

section \<open>The completion predicates\<close>



lemma fst_getReadyForAggregation:
  "fst (getReadyForAggregation w) =
     filter (scan_filter ''STATUS'' Processing 0) (first_page w (table w))"
  by (simp add: getReadyForAggregation_def send_def)

text \<open>
  C4. For a status record in state \<open>processing\<close> whose \<open>totalPages\<close> and
  \<open>processedPages\<close> are both 0 the scan filter and the stream handler do not trigger,
  but \<open>isProcessingComplete\<close> answers true: it lacks the test \<open>totalPages > 0\<close>.
\<close>

theorem isProcessingComplete_zero_total:
  "totalPages zero_page_record = Some 0 \<and>
   isProcessingComplete zero_page_record \<and>
   \<not> scan_filter ''STATUS'' Processing 0 zero_page_record \<and>
   handler_decision \<lparr>eventName = MODIFY, NewImage = Some zero_page_record,
      OldImage = Some zero_page_record\<rparr> = Inr None"
  by (simp add: zero_page_record_def isProcessingComplete_def scan_filter_def
      handler_decision_def new_item_def documentStatusKeys_def)

section \<open>The deferred aggregation and the failed download\<close>

text \<open>The service methods as updates of the world.\<close>

lemma updateStatus_eq:
  "updateStatus fid tid st w =
     w\<lparr>sent := sent w @ [UpdateCommand (documentStatusKeys fid)
                          [SetUpdatedAt (nowISO w), SetOverallStatus st]],
       table := update_item (table w) (documentStatusKeys fid)
                  [SetUpdatedAt (nowISO w), SetOverallStatus st]\<rparr>"
  by (simp add: updateStatus_def updateDocumentStatus_def send_def update_entries_def no_updates_def)

lemma getDocumentPages_eq:
  "getDocumentPages fid w =
     (first_page w (query_items (table w) (''DOC#'' @ fid) ''PAGE#''),
      w\<lparr>sent := sent w @ [QueryCommand (''DOC#'' @ fid) ''PAGE#'']\<rparr>)"
  by (simp add: getDocumentPages_def send_def)

lemma pages_invoked:
  "fst (getDocumentPages fid (updateStatus fid tid st (w\<lparr>invoked := x\<rparr>))) =
   fst (getDocumentPages fid (updateStatus fid tid st w))"
  by (simp add: getDocumentPages_eq updateStatus_eq first_page_def)

lemma status_record_updateStatus:
  "status_record (updateStatus fid tid st w) fid =
     Some ((case status_record w fid of None \<Rightarrow> new_item (documentStatusKeys fid) | Some it \<Rightarrow> it)
            \<lparr>updatedAt := Some (nowISO w), overallStatus := Some st\<rparr>)"
  by (simp add: updateStatus_eq status_record_def get_item_update_item apply_actions_def)

text \<open>
  C3. When the page query of \<open>aggregateResults\<close> returns fewer records than
  \<open>totalPages\<close>, the call returns without an error, the status record ends in state
  \<open>processing\<close>, the results bucket is untouched, and the only commands sent are the
  update to \<open>aggregating\<close>, the page query and the update back to \<open>processing\<close>: no
  update to \<open>completed\<close>.
\<close>

theorem aggregateResults_deferred:
  assumes "int (length (fst (getDocumentPages fid (updateStatus fid tid Aggregating w)))) < tp"
  shows "fst (aggregateResults e fid tid tp w) = Inr () \<and>
         map_option overallStatus (status_record (snd (aggregateResults e fid tid tp w)) fid)
           = Some (Some Processing) \<and>
         resultsBucket (snd (aggregateResults e fid tid tp w)) = resultsBucket w \<and>
         sent (snd (aggregateResults e fid tid tp w)) =
           sent w @ [UpdateCommand (documentStatusKeys fid)
                       [SetUpdatedAt (nowISO w), SetOverallStatus Aggregating],
                     QueryCommand (''DOC#'' @ fid) ''PAGE#'',
                     UpdateCommand (documentStatusKeys fid)
                       [SetUpdatedAt (nowISO w), SetOverallStatus Processing]]"
proof -
  define w0 where "w0 = w\<lparr>invoked := invoked w @ [(fid, tid, tp)]\<rparr>"
  obtain pages w2 where g: "getDocumentPages fid (updateStatus fid tid Aggregating w0) = (pages, w2)"
    by (cases "getDocumentPages fid (updateStatus fid tid Aggregating w0)")
  have "fst (getDocumentPages fid (updateStatus fid tid Aggregating w0)) =
        fst (getDocumentPages fid (updateStatus fid tid Aggregating w))"
    unfolding w0_def by (rule pages_invoked)
  with g assms have lt: "int (length pages) < tp" by simp
  from g have w2: "w2 = (updateStatus fid tid Aggregating w0)
      \<lparr>sent := sent (updateStatus fid tid Aggregating w0) @ [QueryCommand (''DOC#'' @ fid) ''PAGE#'']\<rparr>"
    by (simp add: getDocumentPages_eq)
  from g lt have a: "aggregateResults e fid tid tp w = (Inr (), updateStatus fid tid Processing w2)"
    by (simp add: aggregateResults_def Let_def w0_def)
  have s: "map_option overallStatus (status_record (updateStatus fid tid Processing w2) fid)
           = Some (Some Processing)"
    by (simp add: status_record_updateStatus)
  have r: "resultsBucket (updateStatus fid tid Processing w2) = resultsBucket w"
    by (simp add: w2 w0_def updateStatus_eq)
  have c: "sent (updateStatus fid tid Processing w2) =
           sent w @ [UpdateCommand (documentStatusKeys fid)
                       [SetUpdatedAt (nowISO w), SetOverallStatus Aggregating],
                     QueryCommand (''DOC#'' @ fid) ''PAGE#'',
                     UpdateCommand (documentStatusKeys fid)
                       [SetUpdatedAt (nowISO w), SetOverallStatus Processing]]"
    by (simp add: w2 w0_def updateStatus_eq)
  from a s r c show ?thesis by simp
qed

lemma ready_record_pages:
  "fst (getDocumentPages ''d'' (updateStatus ''d'' ''t'' Aggregating world_ready)) = []"
  by (simp add: getDocumentPages_eq updateStatus_eq world_ready_def empty_world_def
      ready_record_def update_item_def get_item_def item_key_def new_item_def
      documentStatusKeys_def apply_actions_def query_items_def begins_with_def first_page_def)

theorem aggregateResults_deferred_witness:
  "int (length (fst (getDocumentPages ''d'' (updateStatus ''d'' ''t'' Aggregating world_ready)))) < 3 \<and>
   fst (aggregateResults env_no_object ''d'' ''t'' 3 world_ready) = Inr () \<and>
   map_option overallStatus
     (status_record (snd (aggregateResults env_no_object ''d'' ''t'' 3 world_ready)) ''d'')
     = Some (Some Processing) \<and>
   resultsBucket (snd (aggregateResults env_no_object ''d'' ''t'' 3 world_ready)) = []"
proof -
  have h: "int (length (fst (getDocumentPages ''d'' (updateStatus ''d'' ''t'' Aggregating world_ready)))) < 3"
    by (simp add: ready_record_pages)
  from aggregateResults_deferred [OF h, of env_no_object] h show ?thesis
    by (simp add: world_ready_def empty_world_def)
qed

lemma updateStatus_twice_fields:
  assumes "status_record w fid = Some it"
  shows "status_record (updateStatus fid tid st2 (updateStatus fid tid st1 w)) fid =
           Some (it\<lparr>updatedAt := Some (nowISO w), overallStatus := Some st2\<rparr>)"
  using assms by (simp add: status_record_updateStatus) (simp add: updateStatus_eq)

lemma processDocument_download_fails:
  assumes "downloadFile e bucket s3Key = Inl err"
  shows "processDocument e fid tid s3Key bucket w =
           updateStatus fid tid Failed (updateStatus fid tid Processing w)"
  using assms by (simp add: processDocument_def Let_def)

lemma processDocument_extraction_fails:
  assumes "downloadFile e bucket s3Key = Inr buf" "pdf_parse e buf = Inl err"
  shows "processDocument e fid tid s3Key bucket w =
           updateStatus fid tid Failed (updateStatus fid tid Processing w)"
  using assms by (simp add: processDocument_def Let_def)

lemma world_download_failed_eq:
  "world_download_failed = updateStatus ''d'' ''t'' Failed (updateStatus ''d'' ''t'' Processing world_created)"
  unfolding world_download_failed_def
  by (rule processDocument_download_fails [of _ _ _ "Error (Some ''S3 download failed: NoSuchKey'')"])
     (simp add: downloadFile_def env_no_object_def js_str_def)

text \<open>
  C6. A document whose download fails: the status goes from \<open>pending\<close> through
  \<open>processing\<close> to \<open>failed\<close> with two status updates and nothing else (no page
  record, no counter update, \<open>totalPages\<close> and \<open>processedPages\<close> stay 0), and the
  status record carries no \<open>errorMessage\<close>.
\<close>

theorem processDocument_download_failure:
  "map_option overallStatus (status_record world_created ''d'') = Some (Some Pending) \<and>
   map_option overallStatus (status_record world_download_failed ''d'') = Some (Some Failed) \<and>
   map_option errorMessage (status_record world_download_failed ''d'') = Some None \<and>
   map_option totalPages (status_record world_download_failed ''d'') = Some (Some 0) \<and>
   map_option processedPages (status_record world_download_failed ''d'') = Some (Some 0) \<and>
   sent world_download_failed =
     sent world_created @
       [UpdateCommand (documentStatusKeys ''d'')
          [SetUpdatedAt (nowISO world_created), SetOverallStatus Processing],
        UpdateCommand (documentStatusKeys ''d'')
          [SetUpdatedAt (nowISO world_created), SetOverallStatus Failed]]"
proof -
  from status_record_created [of "''d''" "''t''" 0 empty_world] obtain item where
    i: "status_record world_created ''d'' = Some item" "overallStatus item = Some Pending"
       "totalPages item = Some 0" "processedPages item = Some 0"
       "fst (createDocumentStatus ''d'' ''t'' 0 empty_world) = Inr item"
    by (auto simp add: world_created_def)
  have e: "errorMessage item = None"
    using i(5) by (auto simp add: createDocumentStatus_def Let_def split_def)
  have s: "sent world_download_failed =
     sent world_created @
       [UpdateCommand (documentStatusKeys ''d'')
          [SetUpdatedAt (nowISO world_created), SetOverallStatus Processing],
        UpdateCommand (documentStatusKeys ''d'')
          [SetUpdatedAt (nowISO world_created), SetOverallStatus Failed]]"
    by (simp add: world_download_failed_eq updateStatus_eq)
  from i e s show ?thesis
    by (simp add: world_download_failed_eq updateStatus_twice_fields [OF i(1)])
qed

section \<open>The page loop\<close>

lemma analyzeChunk_frame:
  "sent (snd (analyzeChunk e tx r d w)) = sent w \<and>
   table (snd (analyzeChunk e tx r d w)) = table w \<and>
   nowISO (snd (analyzeChunk e tx r d w)) = nowISO w \<and>
   nowMs (snd (analyzeChunk e tx r d w)) = nowMs w \<and>
   resultsBucket (snd (analyzeChunk e tx r d w)) = resultsBucket w"
proof (induction e tx r d w rule: analyzeChunk.induct)
  case (1 e tx retries delay w)
  show ?case
  proof (cases "attempt e tx (modelCalls w)")
    case (Inr j)
    then show ?thesis by (simp add: analyzeChunk.simps [of e tx retries delay w])
  next
    case (Inl err)
    show ?thesis
    proof (cases "is_rate_limit err \<and> retries > 0")
      case True
      with Inl 1 [OF refl Inl True] show ?thesis
        by (simp add: analyzeChunk.simps [of e tx retries delay w])
    next
      case False
      with Inl show ?thesis by (auto simp add: analyzeChunk.simps [of e tx retries delay w])
    qed
  qed
qed

lemma savePageAttributes_result:
  "\<exists>item. savePageAttributes fid tid pn pa cids w =
            (item, w\<lparr>sent := sent w @ [PutCommand item], table := put_item (table w) item\<rparr>) \<and>
          item_key item = documentPageKeys fid pn \<and> pageNumber item = Some pn \<and>
          pageAnalysis item = pa \<and> fileId item = Some fid \<and> tenantId item = Some tid"
  by (simp add: savePageAttributes_def Let_def send_def item_key_def new_item_def)

lemma incrementProcessedPages_eq:
  "snd (incrementProcessedPages fid w) =
     w\<lparr>sent := sent w @ [UpdateCommand (documentStatusKeys fid)
                          [SetProcessedPagesIfNotExistsPlus 0 1, SetUpdatedAt (nowISO w)]],
       table := update_item (table w) (documentStatusKeys fid)
                  [SetProcessedPagesIfNotExistsPlus 0 1, SetUpdatedAt (nowISO w)]\<rparr>"
  by (simp add: incrementProcessedPages_def send_def)

lemma page_key_not_status_key: "documentPageKeys fid pn \<noteq> documentStatusKeys fid"
  by (simp add: documentPageKeys_def documentStatusKeys_def)

lemma get_item_put_item_other:
  assumes "item_key it \<noteq> k"
  shows "get_item (put_item tbl it) k = get_item tbl k"
proof -
  have "find (\<lambda>x. item_key x = k) (filter (\<lambda>x. item_key x \<noteq> item_key it) tbl)
        = find (\<lambda>x. item_key x = k) tbl"
    using assms by (induction tbl) auto
  with assms show ?thesis by (simp add: get_item_def put_item_def)
qed

text \<open>What one iteration leaves behind.\<close>

lemma process_page_effect:
  "\<exists>item w1.
     analyzeChunk e chunk 3 2000 w = (fst (analyzeChunk e chunk 3 2000 w), w1) \<and>
     process_page e fid tid i chunk w =
       (Inr (), w1\<lparr>sent := sent w @ [PutCommand item, UpdateCommand (documentStatusKeys fid)
                          [SetProcessedPagesIfNotExistsPlus 0 1, SetUpdatedAt (nowISO w)]],
                  table := update_item (put_item (table w) item) (documentStatusKeys fid)
                     [SetProcessedPagesIfNotExistsPlus 0 1, SetUpdatedAt (nowISO w)],
                  sleeps := sleeps w1 @ [1000]\<rparr>) \<and>
     item_key item = documentPageKeys fid (i + 1) \<and> pageNumber item = Some (i + 1) \<and>
     pageAnalysis item = Some (case fst (analyzeChunk e chunk 3 2000 w) of
         Inr a \<Rightarrow> JSON_stringify e a
       | Inl err \<Rightarrow> JSON_stringify e (JObj [(''error'', JStr ''Analysis failed''),
                                            (''timestamp'', JStr (nowISO w))]))"
proof -
  obtain r w1 where a: "analyzeChunk e chunk 3 2000 w = (r, w1)"
    by (cases "analyzeChunk e chunk 3 2000 w")
  from analyzeChunk_frame [of e chunk 3 2000 w] a
  have f: "sent w1 = sent w" "table w1 = table w" "nowISO w1 = nowISO w" by simp_all
  define pa where "pa = (case r of Inr a \<Rightarrow> JSON_stringify e a
       | Inl err \<Rightarrow> JSON_stringify e (JObj [(''error'', JStr ''Analysis failed''),
                                            (''timestamp'', JStr (nowISO w))]))"
  from savePageAttributes_result [of fid tid "i + 1" "Some pa" None w1] obtain item where
    s: "savePageAttributes fid tid (i + 1) (Some pa) None w1 =
          (item, w1\<lparr>sent := sent w1 @ [PutCommand item], table := put_item (table w1) item\<rparr>)"
    and k: "item_key item = documentPageKeys fid (i + 1)" "pageNumber item = Some (i + 1)"
      "pageAnalysis item = Some pa"
    by blast
  have "process_page e fid tid i chunk w =
       (Inr (), w1\<lparr>sent := sent w @ [PutCommand item, UpdateCommand (documentStatusKeys fid)
                          [SetProcessedPagesIfNotExistsPlus 0 1, SetUpdatedAt (nowISO w)]],
                  table := update_item (put_item (table w) item) (documentStatusKeys fid)
                     [SetProcessedPagesIfNotExistsPlus 0 1, SetUpdatedAt (nowISO w)],
                  sleeps := sleeps w1 @ [1000]\<rparr>)"
    using a s f
    by (cases r) (simp_all add: process_page_def Let_def pa_def failure_marker_def
        incrementProcessedPages_eq)
  with a k show ?thesis unfolding pa_def by auto
qed

lemma process_page_status:
  assumes "status_record w fid = Some it"
  shows "\<exists>it'. status_record (snd (process_page e fid tid i chunk w)) fid = Some it' \<and>
           overallStatus it' = overallStatus it \<and> totalPages it' = totalPages it \<and>
           processedPages it' = Some ((case processedPages it of None \<Rightarrow> 0 | Some p \<Rightarrow> p) + 1)"
proof -
  from process_page_effect [of e chunk w fid tid i] obtain item w1 where
    p: "process_page e fid tid i chunk w =
       (Inr (), w1\<lparr>sent := sent w @ [PutCommand item, UpdateCommand (documentStatusKeys fid)
                          [SetProcessedPagesIfNotExistsPlus 0 1, SetUpdatedAt (nowISO w)]],
                  table := update_item (put_item (table w) item) (documentStatusKeys fid)
                     [SetProcessedPagesIfNotExistsPlus 0 1, SetUpdatedAt (nowISO w)],
                  sleeps := sleeps w1 @ [1000]\<rparr>)"
    and k: "item_key item = documentPageKeys fid (i + 1)"
    by blast
  from k have "get_item (put_item (table w) item) (documentStatusKeys fid) = Some it"
    using assms by (simp add: get_item_put_item_other page_key_not_status_key status_record_def)
  with p show ?thesis
    by (simp add: status_record_def get_item_update_item apply_actions_def split: option.splits)
qed

lemma page_loop_status:
  assumes "status_record w fid = Some it"
  shows "fst (page_loop e fid tid texts i w) = Inr () \<and>
         (\<exists>it'. status_record (snd (page_loop e fid tid texts i w)) fid = Some it' \<and>
           overallStatus it' = overallStatus it \<and> totalPages it' = totalPages it \<and>
           processedPages it' =
             (if texts = [] then processedPages it
              else Some ((case processedPages it of None \<Rightarrow> 0 | Some p \<Rightarrow> p) + int (length texts))))"
  using assms
proof (induction texts arbitrary: i w it)
  case Nil
  then show ?case by simp
next
  case (Cons c cs)
  from process_page_effect [of e c w fid tid i] obtain w' where
    p: "process_page e fid tid i c w = (Inr (), w')" by blast
  from process_page_status [OF Cons.prems, of e tid i c] p obtain it1 where
    s: "status_record w' fid = Some it1" "overallStatus it1 = overallStatus it"
       "totalPages it1 = totalPages it"
       "processedPages it1 = Some ((case processedPages it of None \<Rightarrow> 0 | Some p \<Rightarrow> p) + 1)"
    by auto
  from Cons.IH [OF s(1), of "i + 1"] p s show ?case
    by (auto split: if_splits)
qed

lemma page_loop_returns: "fst (page_loop e fid tid texts i w) = Inr ()"
proof (induction texts arbitrary: i w)
  case Nil
  then show ?case by simp
next
  case (Cons c cs)
  from process_page_effect [of e c w fid tid i] obtain w' where
    "process_page e fid tid i c w = (Inr (), w')" by blast
  with Cons.IH [of "i + 1" w'] show ?case by simp
qed

lemma updateTotalPages_eq:
  "updateTotalPages fid tid n w =
     w\<lparr>sent := sent w @ [UpdateCommand (documentStatusKeys fid)
                          [SetTotalPages n, SetUpdatedAt (nowISO w)]],
       table := update_item (table w) (documentStatusKeys fid)
                  [SetTotalPages n, SetUpdatedAt (nowISO w)]\<rparr>"
  by (simp add: updateTotalPages_def send_def)

lemma status_record_updateTotalPages:
  "status_record (updateTotalPages fid tid n w) fid =
     Some ((case status_record w fid of None \<Rightarrow> new_item (documentStatusKeys fid) | Some it \<Rightarrow> it)
            \<lparr>totalPages := Some n, updatedAt := Some (nowISO w)\<rparr>)"
  by (simp add: updateTotalPages_eq status_record_def get_item_update_item apply_actions_def)

lemma processDocument_pages:
  assumes "downloadFile e bucket s3Key = Inr buf" "pdf_parse e buf = Inr (n, texts)"
    and "counter w fid = Some p"
  shows "\<exists>it. status_record (processDocument e fid tid s3Key bucket w) fid = Some it \<and>
           overallStatus it = Some Processing \<and> totalPages it = Some n \<and>
           processedPages it = Some (p + int (length texts))"
proof -
  from assms(3) obtain it0 where i0: "status_record w fid = Some it0" "processedPages it0 = Some p"
    by (auto simp add: counter_def split: option.splits)
  define w2 where "w2 = updateTotalPages fid tid n (updateStatus fid tid Processing w)"
  define it2 where "it2 = it0\<lparr>updatedAt := Some (nowISO w), overallStatus := Some Processing,
     totalPages := Some n\<rparr>"
  have s1: "status_record (updateStatus fid tid Processing w) fid =
      Some (it0\<lparr>updatedAt := Some (nowISO w), overallStatus := Some Processing\<rparr>)"
    using i0 by (simp add: status_record_updateStatus)
  have n1: "nowISO (updateStatus fid tid Processing w) = nowISO w"
    by (simp add: updateStatus_eq)
  have s2: "status_record w2 fid = Some it2"
    unfolding w2_def it2_def by (simp add: status_record_updateTotalPages s1 n1)
  from page_loop_status [OF s2, of e tid texts 0] obtain it' where
    l: "fst (page_loop e fid tid texts 0 w2) = Inr ()"
       "status_record (snd (page_loop e fid tid texts 0 w2)) fid = Some it'"
       "overallStatus it' = overallStatus it2" "totalPages it' = totalPages it2"
       "processedPages it' =
          (if texts = [] then processedPages it2
           else Some ((case processedPages it2 of None \<Rightarrow> 0 | Some p \<Rightarrow> p) + int (length texts)))"
    by blast
  have p: "processDocument e fid tid s3Key bucket w = snd (page_loop e fid tid texts 0 w2)"
    using assms(1,2) l(1)
    by (cases "page_loop e fid tid texts 0 w2") (simp add: processDocument_def Let_def w2_def)
  from l i0 show ?thesis
    unfolding p by (cases "texts = []") (simp_all add: it2_def)
qed

lemma analyzeChunk_unfold:
  "analyzeChunk e tx r d w =
     (attempt e tx (modelCalls w + retries_taken e tx (modelCalls w) r),
      w\<lparr>modelCalls := modelCalls w + retries_taken e tx (modelCalls w) r + 1,
        sleeps := sleeps w @ map (\<lambda>i. d * 2 ^ i) [0..<retries_taken e tx (modelCalls w) r]\<rparr>)"
proof (induction r arbitrary: d w)
  case 0
  show ?case
    by (cases "attempt e tx (modelCalls w)") (simp_all add: analyzeChunk.simps [of e tx 0 d w])
next
  case (Suc r)
  show ?case
  proof (cases "attempt e tx (modelCalls w)")
    case (Inr j)
    then show ?thesis by (simp add: analyzeChunk.simps [of e tx "Suc r" d w])
  next
    case (Inl err)
    show ?thesis
    proof (cases "is_rate_limit err")
      case False
      with Inl show ?thesis by (simp add: analyzeChunk.simps [of e tx "Suc r" d w])
    next
      case True
      have m: "map (\<lambda>i. d * 2 ^ i) [0..<Suc k] = d # map (\<lambda>i. d * 2 * 2 ^ i) [0..<k]" for k
        by (simp add: map_upt_Suc del: upt_Suc)
      from Inl True show ?thesis
        by (simp add: analyzeChunk.simps [of e tx "Suc r" d w] Suc.IH m del: upt_Suc)
    qed
  qed
qed

lemma retries_taken_le: "retries_taken e tx n r \<le> r"
  by (induction r arbitrary: n) (auto split: sum.splits)

lemma retries_taken_rate_limited:
  "i < retries_taken e tx n r \<Longrightarrow> \<exists>err. attempt e tx (n + i) = Inl err \<and> is_rate_limit err"
proof (induction r arbitrary: n i)
  case 0
  then show ?case by simp
next
  case (Suc r)
  from Suc.prems obtain err where e: "attempt e tx n = Inl err" "is_rate_limit err"
    and k: "i < Suc (retries_taken e tx (Suc n) r)"
    by (auto split: sum.splits if_splits)
  show ?case
  proof (cases i)
    case 0
    with e show ?thesis by simp
  next
    case (Suc j)
    with k have "j < retries_taken e tx (Suc n) r" by simp
    from Suc.IH [OF this] Suc show ?thesis by simp
  qed
qed

lemma retries_taken_stops:
  "retries_taken e tx n r < r \<Longrightarrow>
     \<not> (\<exists>err. attempt e tx (n + retries_taken e tx n r) = Inl err \<and> is_rate_limit err)"
proof (induction r arbitrary: n)
  case 0
  then show ?case by simp
next
  case (Suc r)
  show ?case
  proof (cases "attempt e tx n")
    case (Inr j)
    then show ?thesis by simp
  next
    case (Inl err)
    show ?thesis
    proof (cases "is_rate_limit err")
      case False
      with Inl show ?thesis by simp
    next
      case True
      with Inl Suc.prems have "retries_taken e tx (Suc n) r < r" by simp
      from Suc.IH [OF this] Inl True show ?thesis by simp
    qed
  qed
qed

section \<open>Bounded retry\<close>

lemma attempt_rate_limited:
  "attempt env_rate_limited tx n = Inl (Error (Some ''429 Too Many Requests''))"
  by (simp add: attempt_def env_rate_limited_def)

lemma is_rate_limit_429: "is_rate_limit (Error (Some ''429 Too Many Requests''))"
  by (simp add: is_rate_limit_def)

lemma retries_taken_rate_limited_3: "retries_taken env_rate_limited tx n 3 = 3"
  by (simp add: numeral_3_eq_3 attempt_rate_limited is_rate_limit_429)

lemma attempt_flaky_later:
  "attempt env_flaky tx (Suc n) = Inl (Error (Some ''500 Internal''))"
  by (simp add: attempt_def env_flaky_def)

lemma not_rate_limit_500: "\<not> is_rate_limit (Error (Some ''500 Internal''))"
  by (simp add: is_rate_limit_def)


section \<open>The completion watcher\<close>
















section \<open>Page keys are injective\<close>

lemma toString_nonempty: "toString n \<noteq> []"
  by (cases "n < 10") (simp_all add: toString_small toString_large)

lemma length_toString: "10 ^ k \<le> n \<Longrightarrow> k < length (toString n)"
proof (induction k arbitrary: n)
  case 0
  from toString_nonempty [of n] show ?case by (cases "toString n") simp_all
next
  case (Suc k)
  define x where "x = (10::nat) ^ k"
  have x: "1 \<le> x" by (simp add: x_def)
  from Suc.prems have a: "10 * x \<le> n" by (simp add: x_def)
  from a x have n: "10 \<le> n" by linarith
  from a have "x \<le> n div 10" by simp
  then have "10 ^ k \<le> n div 10" by (simp add: x_def)
  from Suc.IH [OF this] n show ?case by (simp add: toString_large)
qed

lemma toString_inj: "toString m = toString n \<Longrightarrow> m = n"
proof (induction m arbitrary: n rule: less_induct)
  case (less m)
  show ?case
  proof (cases "m < 10")
    case True
    show ?thesis
    proof (cases "n < 10")
      case n: True
      with True less.prems show ?thesis by (simp add: toString_small digit_char_eq)
    next
      case False
      with True less.prems toString_nonempty [of "n div 10"] show ?thesis
        by (simp add: toString_small toString_large)
    qed
  next
    case m: False
    show ?thesis
    proof (cases "n < 10")
      case True
      with m less.prems toString_nonempty [of "m div 10"] show ?thesis
        by (simp add: toString_small toString_large)
    next
      case False
      with m less.prems have e: "toString (m div 10) = toString (n div 10)"
        "digit_char (m mod 10) = digit_char (n mod 10)"
        by (simp_all add: toString_large)
      from m have "m div 10 < m" by simp
      from less.IH [OF this e(1)] have d: "m div 10 = n div 10" .
      from e(2) have r: "m mod 10 = n mod 10" by (simp add: digit_char_eq)
      have "m = 10 * (m div 10) + m mod 10" "n = 10 * (n div 10) + n mod 10" by simp_all
      with d r show ?thesis by simp
    qed
  qed
qed

lemma padded_long: "10000 \<le> n \<Longrightarrow> padStart 4 c (toString n) = toString n"
proof -
  assume "10000 \<le> n"
  then have "10 ^ 4 \<le> n" by simp
  from length_toString [OF this] show ?thesis by (simp add: padStart_def)
qed

lemma documentPageKeys_inj:
  assumes "documentPageKeys fid m = documentPageKeys fid n"
  shows "m = n"
proof -
  from assms have p: "padStart 4 CHR ''0'' (toString m) = padStart 4 CHR ''0'' (toString n)"
    by (simp add: documentPageKeys_def)
  consider "m < 10000" "n < 10000" | "10000 \<le> m" "10000 \<le> n"
    | "m < 10000" "10000 \<le> n" | "n < 10000" "10000 \<le> m" by linarith
  then show ?thesis
  proof cases
    case 1
    show ?thesis
    proof (rule ccontr)
      assume "m \<noteq> n"
      then consider "m < n" | "n < m" by linarith
      then show False
      proof cases
        case 1
        from page_key_less [OF 1 \<open>n < 10000\<close>, of fid] assms show False by simp
      next
        case 2
        from page_key_less [OF 2 \<open>m < 10000\<close>, of fid] assms show False by simp
      qed
    qed
  next
    case 2
    with p show ?thesis by (simp add: padded_long toString_inj)
  next
    case 3
    from 3(2) have "10 ^ 4 \<le> n" by simp
    from length_toString [OF this] 3(2)
    have "4 < length (padStart 4 CHR ''0'' (toString n))" by (simp add: padded_long)
    moreover from 3(1) have "length (padStart 4 CHR ''0'' (toString m)) = 4"
      by (simp add: padded_four key4_def)
    ultimately show ?thesis using p by simp
  next
    case 4
    from 4(2) have "10 ^ 4 \<le> m" by simp
    from length_toString [OF this] 4(2)
    have "4 < length (padStart 4 CHR ''0'' (toString m))" by (simp add: padded_long)
    moreover from 4(1) have "length (padStart 4 CHR ''0'' (toString n)) = 4"
      by (simp add: padded_four key4_def)
    ultimately show ?thesis using p by simp
  qed
qed

section \<open>The page loop, command by command\<close>

lemma find_map_other_key:
  assumes "\<And>x. item_key (g x) = item_key x" "k' \<noteq> k"
  shows "find (\<lambda>it. item_key it = k') (map (\<lambda>x. if item_key x = k then g x else x) tbl)
         = find (\<lambda>it. item_key it = k') tbl"
  using assms by (induction tbl) auto

lemma get_item_update_item_other:
  assumes "k' \<noteq> k"
  shows "get_item (update_item tbl k acts) k' = get_item tbl k'"
proof (cases "get_item tbl k")
  case None
  with assms show ?thesis by (simp add: update_item_def get_item_def)
next
  case (Some it)
  with assms show ?thesis
    by (simp add: update_item_def get_item_def find_map_other_key)
qed

text \<open>The table after one iteration.\<close>

lemma process_page_table:
  "\<exists>item. 
     fst (process_page e fid tid i chunk w) = Inr () \<and>
     nowISO (snd (process_page e fid tid i chunk w)) = nowISO w \<and>
     sent (snd (process_page e fid tid i chunk w)) =
       sent w @ [PutCommand item, UpdateCommand (documentStatusKeys fid)
                   [SetProcessedPagesIfNotExistsPlus 0 1, SetUpdatedAt (nowISO w)]] \<and>
     item_key item = documentPageKeys fid (i + 1) \<and> pageNumber item = Some (i + 1) \<and>
     pageAnalysis item = Some (case fst (analyzeChunk e chunk 3 2000 w) of
         Inr a \<Rightarrow> JSON_stringify e a
       | Inl err \<Rightarrow> JSON_stringify e (JObj [(''error'', JStr ''Analysis failed''),
                                            (''timestamp'', JStr (nowISO w))])) \<and>
     get_item (table (snd (process_page e fid tid i chunk w))) (documentPageKeys fid (i + 1))
       = Some item \<and>
     (\<forall>k. k \<noteq> documentPageKeys fid (i + 1) \<and> k \<noteq> documentStatusKeys fid \<longrightarrow>
        get_item (table (snd (process_page e fid tid i chunk w))) k = get_item (table w) k)"
proof -
  from process_page_effect [of e chunk w fid tid i] obtain item w1 where
    a: "analyzeChunk e chunk 3 2000 w = (fst (analyzeChunk e chunk 3 2000 w), w1)" and
    p: "process_page e fid tid i chunk w =
       (Inr (), w1\<lparr>sent := sent w @ [PutCommand item, UpdateCommand (documentStatusKeys fid)
                          [SetProcessedPagesIfNotExistsPlus 0 1, SetUpdatedAt (nowISO w)]],
                  table := update_item (put_item (table w) item) (documentStatusKeys fid)
                     [SetProcessedPagesIfNotExistsPlus 0 1, SetUpdatedAt (nowISO w)],
                  sleeps := sleeps w1 @ [1000]\<rparr>)"
    and k: "item_key item = documentPageKeys fid (i + 1)" "pageNumber item = Some (i + 1)"
     "pageAnalysis item = Some (case fst (analyzeChunk e chunk 3 2000 w) of
         Inr a \<Rightarrow> JSON_stringify e a
       | Inl err \<Rightarrow> JSON_stringify e (JObj [(''error'', JStr ''Analysis failed''),
                                            (''timestamp'', JStr (nowISO w))]))"
    by blast
  from a analyzeChunk_frame [of e chunk 3 2000 w] have n: "nowISO w1 = nowISO w"
    by (metis snd_conv)
  have g: "get_item (table (snd (process_page e fid tid i chunk w))) (documentPageKeys fid (i + 1))
       = Some item"
    using p k(1) get_item_put_item [of "table w" item]
    by (simp add: get_item_update_item_other page_key_not_status_key)
  have o: "\<forall>k. k \<noteq> documentPageKeys fid (i + 1) \<and> k \<noteq> documentStatusKeys fid \<longrightarrow>
        get_item (table (snd (process_page e fid tid i chunk w))) k = get_item (table w) k"
  proof (intro allI impI)
    fix k assume h: "k \<noteq> documentPageKeys fid (i + 1) \<and> k \<noteq> documentStatusKeys fid"
    with k(1) have "item_key item \<noteq> k" by auto
    with p h show "get_item (table (snd (process_page e fid tid i chunk w))) k = get_item (table w) k"
      by (simp add: get_item_update_item_other get_item_put_item_other)
  qed
  from p n k g o show ?thesis by (intro exI [of _ item]) simp
qed

lemma page_loop_Cons:
  "page_loop e fid tid (c # cs) i w =
     page_loop e fid tid cs (i + 1) (snd (process_page e fid tid i c w))"
proof -
  from process_page_table [of e fid tid i c w]
  have "fst (process_page e fid tid i c w) = Inr ()" by blast
  then show ?thesis by (cases "process_page e fid tid i c w") simp
qed

lemma page_loop_frame:
  assumes "\<forall>j < length texts. k \<noteq> documentPageKeys fid (i + j + 1)" "k \<noteq> documentStatusKeys fid"
  shows "get_item (table (snd (page_loop e fid tid texts i w))) k = get_item (table w) k"
  using assms
proof (induction texts arbitrary: i w)
  case Nil
  then show ?case by simp
next
  case (Cons c cs)
  from Cons.prems(1) have k0: "k \<noteq> documentPageKeys fid (i + 1)" by auto
  from Cons.prems(1) have r: "\<forall>j < length cs. k \<noteq> documentPageKeys fid (i + 1 + j + 1)"
    by auto
  from process_page_table [of e fid tid i c w] k0 Cons.prems(2)
  have "get_item (table (snd (process_page e fid tid i c w))) k = get_item (table w) k" by blast
  with Cons.IH [OF r Cons.prems(2), of "snd (process_page e fid tid i c w)"] show ?case
    by (simp only: page_loop_Cons)
qed

lemma page_loop_effect:
  "\<exists>items. length items = length texts \<and>
     fst (page_loop e fid tid texts i w) = Inr () \<and>
     nowISO (snd (page_loop e fid tid texts i w)) = nowISO w \<and>
     sent (snd (page_loop e fid tid texts i w)) =
       sent w @ concat (map (\<lambda>it. [PutCommand it, UpdateCommand (documentStatusKeys fid)
                    [SetProcessedPagesIfNotExistsPlus 0 1, SetUpdatedAt (nowISO w)]]) items) \<and>
     (\<forall>k < length texts.
        item_key (items ! k) = documentPageKeys fid (i + k + 1) \<and>
        pageNumber (items ! k) = Some (i + k + 1) \<and>
        pageAnalysis (items ! k) =
          Some (case fst (analyzeChunk e (texts ! k) 3 2000
                            (snd (page_loop e fid tid (take k texts) i w))) of
              Inr a \<Rightarrow> JSON_stringify e a
            | Inl err \<Rightarrow> JSON_stringify e (JObj [(''error'', JStr ''Analysis failed''),
                                                 (''timestamp'', JStr (nowISO w))])) \<and>
        get_item (table (snd (page_loop e fid tid texts i w))) (documentPageKeys fid (i + k + 1))
          = Some (items ! k))"
proof (induction texts arbitrary: i w)
  case Nil
  show ?case by simp
next
  case (Cons c cs)
  define w1 where "w1 = snd (process_page e fid tid i c w)"
  from process_page_table [of e fid tid i c w] obtain item where
    n1: "nowISO w1 = nowISO w" and
    s1: "sent w1 = sent w @ [PutCommand item, UpdateCommand (documentStatusKeys fid)
                   [SetProcessedPagesIfNotExistsPlus 0 1, SetUpdatedAt (nowISO w)]]" and
    k1: "item_key item = documentPageKeys fid (i + 1)" "pageNumber item = Some (i + 1)"
     "pageAnalysis item = Some (case fst (analyzeChunk e c 3 2000 w) of
         Inr a \<Rightarrow> JSON_stringify e a
       | Inl err \<Rightarrow> JSON_stringify e (JObj [(''error'', JStr ''Analysis failed''),
                                            (''timestamp'', JStr (nowISO w))]))" and
    g1: "get_item (table w1) (documentPageKeys fid (i + 1)) = Some item"
    unfolding w1_def by blast
  from Cons.IH [of "i + 1" w1] obtain items where
    l: "length items = length cs" and
    f: "fst (page_loop e fid tid cs (i + 1) w1) = Inr ()" and
    n: "nowISO (snd (page_loop e fid tid cs (i + 1) w1)) = nowISO w1" and
    s: "sent (snd (page_loop e fid tid cs (i + 1) w1)) =
       sent w1 @ concat (map (\<lambda>it. [PutCommand it, UpdateCommand (documentStatusKeys fid)
                    [SetProcessedPagesIfNotExistsPlus 0 1, SetUpdatedAt (nowISO w1)]]) items)" and
    a: "\<forall>k < length cs.
        item_key (items ! k) = documentPageKeys fid (i + 1 + k + 1) \<and>
        pageNumber (items ! k) = Some (i + 1 + k + 1) \<and>
        pageAnalysis (items ! k) =
          Some (case fst (analyzeChunk e (cs ! k) 3 2000
                            (snd (page_loop e fid tid (take k cs) (i + 1) w1))) of
              Inr a \<Rightarrow> JSON_stringify e a
            | Inl err \<Rightarrow> JSON_stringify e (JObj [(''error'', JStr ''Analysis failed''),
                                                 (''timestamp'', JStr (nowISO w1))])) \<and>
        get_item (table (snd (page_loop e fid tid cs (i + 1) w1))) (documentPageKeys fid (i + 1 + k + 1))
          = Some (items ! k)"
    by blast
  note s = s [unfolded n1] and a = a [unfolded n1]
  have p: "page_loop e fid tid (c # cs) i w = page_loop e fid tid cs (i + 1) w1"
    by (simp only: page_loop_Cons w1_def)
  have t: "snd (page_loop e fid tid (take (Suc k) (c # cs)) i w) =
           snd (page_loop e fid tid (take k cs) (i + 1) w1)" for k
    by (simp only: take_Suc_Cons page_loop_Cons w1_def)
  have g0: "get_item (table (snd (page_loop e fid tid cs (i + 1) w1))) (documentPageKeys fid (i + 1))
        = Some item"
  proof -
    have "\<forall>j < length cs. documentPageKeys fid (i + 1) \<noteq> documentPageKeys fid (i + 1 + j + 1)"
      by (auto dest: documentPageKeys_inj)
    from page_loop_frame [OF this page_key_not_status_key, of e tid w1] g1 show ?thesis by simp
  qed
  have z: "\<forall>k < length (c # cs).
        item_key ((item # items) ! k) = documentPageKeys fid (i + k + 1) \<and>
        pageNumber ((item # items) ! k) = Some (i + k + 1) \<and>
        pageAnalysis ((item # items) ! k) =
          Some (case fst (analyzeChunk e ((c # cs) ! k) 3 2000
                            (snd (page_loop e fid tid (take k (c # cs)) i w))) of
              Inr a \<Rightarrow> JSON_stringify e a
            | Inl err \<Rightarrow> JSON_stringify e (JObj [(''error'', JStr ''Analysis failed''),
                                                 (''timestamp'', JStr (nowISO w))])) \<and>
        get_item (table (snd (page_loop e fid tid (c # cs) i w))) (documentPageKeys fid (i + k + 1))
          = Some ((item # items) ! k)"
  proof (intro allI impI)
    fix k assume kl: "k < length (c # cs)"
    show "item_key ((item # items) ! k) = documentPageKeys fid (i + k + 1) \<and>
        pageNumber ((item # items) ! k) = Some (i + k + 1) \<and>
        pageAnalysis ((item # items) ! k) =
          Some (case fst (analyzeChunk e ((c # cs) ! k) 3 2000
                            (snd (page_loop e fid tid (take k (c # cs)) i w))) of
              Inr a \<Rightarrow> JSON_stringify e a
            | Inl err \<Rightarrow> JSON_stringify e (JObj [(''error'', JStr ''Analysis failed''),
                                                 (''timestamp'', JStr (nowISO w))])) \<and>
        get_item (table (snd (page_loop e fid tid (c # cs) i w))) (documentPageKeys fid (i + k + 1))
          = Some ((item # items) ! k)"
    proof (cases k)
      case 0
      with k1 g0 p show ?thesis by (simp del: page_loop.simps(2))
    next
      case (Suc j)
      with kl have "j < length cs" by simp
      with a have "item_key (items ! j) = documentPageKeys fid (i + 1 + j + 1) \<and>
        pageNumber (items ! j) = Some (i + 1 + j + 1) \<and>
        pageAnalysis (items ! j) =
          Some (case fst (analyzeChunk e (cs ! j) 3 2000
                            (snd (page_loop e fid tid (take j cs) (i + 1) w1))) of
              Inr a \<Rightarrow> JSON_stringify e a
            | Inl err \<Rightarrow> JSON_stringify e (JObj [(''error'', JStr ''Analysis failed''),
                                                 (''timestamp'', JStr (nowISO w))])) \<and>
        get_item (table (snd (page_loop e fid tid cs (i + 1) w1))) (documentPageKeys fid (i + 1 + j + 1))
          = Some (items ! j)" by blast
      with Suc p t [of j] show ?thesis
        by (simp add: add.commute add.left_commute del: page_loop.simps(2))
    qed
  qed
  from l f n s n1 s1 have
    "length (item # items) = length (c # cs) \<and>
     fst (page_loop e fid tid (c # cs) i w) = Inr () \<and>
     nowISO (snd (page_loop e fid tid (c # cs) i w)) = nowISO w \<and>
     sent (snd (page_loop e fid tid (c # cs) i w)) =
       sent w @ concat (map (\<lambda>it. [PutCommand it, UpdateCommand (documentStatusKeys fid)
                    [SetProcessedPagesIfNotExistsPlus 0 1, SetUpdatedAt (nowISO w)]]) (item # items))"
    unfolding p by simp
  with z show ?case by (intro exI [of _ "item # items"]) blast
qed

lemma processDocument_runs_loop:
  assumes "downloadFile e bucket s3Key = Inr buf" "pdf_parse e buf = Inr (n, texts)"
  shows "processDocument e fid tid s3Key bucket w =
           snd (page_loop e fid tid texts 0
                  (updateTotalPages fid tid n (updateStatus fid tid Processing w)))"
  using assms page_loop_returns [of e fid tid texts 0
      "updateTotalPages fid tid n (updateStatus fid tid Processing w)"]
  by (cases "page_loop e fid tid texts 0 (updateTotalPages fid tid n (updateStatus fid tid Processing w))")
     (simp add: processDocument_def Let_def)

text \<open>
C5. Every page iteration of the worker's loop, whether the analysis succeeds or fails,
returns normally, sends exactly one PutCommand for the page record followed by exactly one
counter update, and leaves that page record in the table; its payload is the structured
analysis on success and the failure marker (reason and timestamp) on failure. The whole loop
over the page texts therefore returns normally, sends exactly one such pair of commands per
page, in page order, and leaves in the final table the record of every page, with the payload
decided by the analysis call of that page. A document that was downloaded and parsed is
processed by exactly this loop, stays in state processing and has its counter advanced by the
number of pages.
\<close>

theorem page_loop_records_and_counts:
  "(\<exists>item.
     fst (process_page e fid tid i chunk w) = Inr () \<and>
     sent (snd (process_page e fid tid i chunk w)) =
       sent w @ [PutCommand item, UpdateCommand (documentStatusKeys fid)
                   [SetProcessedPagesIfNotExistsPlus 0 1, SetUpdatedAt (nowISO w)]] \<and>
     item_key item = documentPageKeys fid (i + 1) \<and> pageNumber item = Some (i + 1) \<and>
     pageAnalysis item = Some (case fst (analyzeChunk e chunk 3 2000 w) of
         Inr a \<Rightarrow> JSON_stringify e a
       | Inl err \<Rightarrow> JSON_stringify e (JObj [(''error'', JStr ''Analysis failed''),
                                            (''timestamp'', JStr (nowISO w))])) \<and>
     get_item (table (snd (process_page e fid tid i chunk w))) (documentPageKeys fid (i + 1))
       = Some item) \<and>
   (\<exists>items. length items = length texts \<and>
     fst (page_loop e fid tid texts i w) = Inr () \<and>
     sent (snd (page_loop e fid tid texts i w)) =
       sent w @ concat (map (\<lambda>it. [PutCommand it, UpdateCommand (documentStatusKeys fid)
                    [SetProcessedPagesIfNotExistsPlus 0 1, SetUpdatedAt (nowISO w)]]) items) \<and>
     (\<forall>k < length texts.
        item_key (items ! k) = documentPageKeys fid (i + k + 1) \<and>
        pageNumber (items ! k) = Some (i + k + 1) \<and>
        pageAnalysis (items ! k) =
          Some (case fst (analyzeChunk e (texts ! k) 3 2000
                            (snd (page_loop e fid tid (take k texts) i w))) of
              Inr a \<Rightarrow> JSON_stringify e a
            | Inl err \<Rightarrow> JSON_stringify e (JObj [(''error'', JStr ''Analysis failed''),
                                                 (''timestamp'', JStr (nowISO w))])) \<and>
        get_item (table (snd (page_loop e fid tid texts i w))) (documentPageKeys fid (i + k + 1))
          = Some (items ! k))) \<and>
   (downloadFile e bucket s3Key = Inr buf \<and> pdf_parse e buf = Inr (n, texts) \<and>
    counter w fid = Some p \<longrightarrow>
      processDocument e fid tid s3Key bucket w =
        snd (page_loop e fid tid texts 0
               (updateTotalPages fid tid n (updateStatus fid tid Processing w))) \<and>
      (\<exists>it. status_record (processDocument e fid tid s3Key bucket w) fid = Some it \<and>
         overallStatus it = Some Processing \<and> totalPages it = Some n \<and>
         processedPages it = Some (p + int (length texts))))"
proof -
  from process_page_table [of e fid tid i chunk w]
  have a: "\<exists>item.
     fst (process_page e fid tid i chunk w) = Inr () \<and>
     sent (snd (process_page e fid tid i chunk w)) =
       sent w @ [PutCommand item, UpdateCommand (documentStatusKeys fid)
                   [SetProcessedPagesIfNotExistsPlus 0 1, SetUpdatedAt (nowISO w)]] \<and>
     item_key item = documentPageKeys fid (i + 1) \<and> pageNumber item = Some (i + 1) \<and>
     pageAnalysis item = Some (case fst (analyzeChunk e chunk 3 2000 w) of
         Inr a \<Rightarrow> JSON_stringify e a
       | Inl err \<Rightarrow> JSON_stringify e (JObj [(''error'', JStr ''Analysis failed''),
                                            (''timestamp'', JStr (nowISO w))])) \<and>
     get_item (table (snd (process_page e fid tid i chunk w))) (documentPageKeys fid (i + 1))
       = Some item"
    by blast
  from page_loop_effect [of texts e fid tid i w]
  have b: "\<exists>items. length items = length texts \<and>
     fst (page_loop e fid tid texts i w) = Inr () \<and>
     sent (snd (page_loop e fid tid texts i w)) =
       sent w @ concat (map (\<lambda>it. [PutCommand it, UpdateCommand (documentStatusKeys fid)
                    [SetProcessedPagesIfNotExistsPlus 0 1, SetUpdatedAt (nowISO w)]]) items) \<and>
     (\<forall>k < length texts.
        item_key (items ! k) = documentPageKeys fid (i + k + 1) \<and>
        pageNumber (items ! k) = Some (i + k + 1) \<and>
        pageAnalysis (items ! k) =
          Some (case fst (analyzeChunk e (texts ! k) 3 2000
                            (snd (page_loop e fid tid (take k texts) i w))) of
              Inr a \<Rightarrow> JSON_stringify e a
            | Inl err \<Rightarrow> JSON_stringify e (JObj [(''error'', JStr ''Analysis failed''),
                                                 (''timestamp'', JStr (nowISO w))])) \<and>
        get_item (table (snd (page_loop e fid tid texts i w))) (documentPageKeys fid (i + k + 1))
          = Some (items ! k))"
    by blast
  from a b processDocument_runs_loop [of e bucket s3Key buf n texts fid tid w]
    processDocument_pages [of e bucket s3Key buf n texts w fid p tid]
  show ?thesis by blast
qed

text \<open>
The theorem at a document of two pages whose second analysis call fails.
\<close>

theorem page_loop_records_and_counts_witness:
  "downloadFile env_flaky ''document-orchestrator-pdfs'' ''t/d/a.pdf'' = Inr ''%PDF'' \<and>
   pdf_parse env_flaky ''%PDF'' = Inr (2, [''page one'', ''page two'']) \<and>
   counter world_created ''d'' = Some 0 \<and>
   (\<exists>it. status_record (processDocument env_flaky ''d'' ''t'' ''t/d/a.pdf''
             ''document-orchestrator-pdfs'' world_created) ''d'' = Some it \<and>
      overallStatus it = Some Processing \<and> totalPages it = Some 2 \<and>
      processedPages it = Some 2) \<and>
   (\<exists>items. length items = 2 \<and>
      pageNumber (items ! 0) = Some 1 \<and> pageNumber (items ! 1) = Some 2 \<and>
      get_item (table (snd (page_loop env_flaky ''d'' ''t'' [''page one'', ''page two''] 0
                              world_created))) (documentPageKeys ''d'' 2) = Some (items ! 1))"
proof -
  have h: "downloadFile env_flaky ''document-orchestrator-pdfs'' ''t/d/a.pdf'' = Inr ''%PDF''"
    "pdf_parse env_flaky ''%PDF'' = Inr (2, [''page one'', ''page two''])"
    by (simp_all add: downloadFile_def env_flaky_def)
  from page_loop_records_and_counts [of env_flaky "''d''" "''t''" 0 "''page one''" world_created
      "[''page one'', ''page two'']" "''document-orchestrator-pdfs''" "''t/d/a.pdf''" "''%PDF''" 2 0]
    h counter_world_created
  obtain items it where
    i: "length items = length [''page one'', ''page two'']"
       "\<forall>k < length [''page one'', ''page two''].
          item_key (items ! k) = documentPageKeys ''d'' (0 + k + 1) \<and>
          pageNumber (items ! k) = Some (0 + k + 1) \<and>
          get_item (table (snd (page_loop env_flaky ''d'' ''t'' [''page one'', ''page two''] 0
                              world_created))) (documentPageKeys ''d'' (0 + k + 1)) = Some (items ! k)"
    and s: "status_record (processDocument env_flaky ''d'' ''t'' ''t/d/a.pdf''
             ''document-orchestrator-pdfs'' world_created) ''d'' = Some it"
       "overallStatus it = Some Processing" "totalPages it = Some 2"
       "processedPages it = Some (0 + int (length [''page one'', ''page two'']))"
    by blast
  from i(2) [rule_format, of 0] i(2) [rule_format, of 1]
  have j: "pageNumber (items ! 0) = Some 1" "pageNumber (items ! 1) = Some 2"
    "get_item (table (snd (page_loop env_flaky ''d'' ''t'' [''page one'', ''page two''] 0
                              world_created))) (documentPageKeys ''d'' 2) = Some (items ! 1)"
    by (simp_all add: numeral_2_eq_2 del: page_loop.simps)
  from i(1) j have "\<exists>items. length items = 2 \<and>
      pageNumber (items ! 0) = Some 1 \<and> pageNumber (items ! 1) = Some 2 \<and>
      get_item (table (snd (page_loop env_flaky ''d'' ''t'' [''page one'', ''page two''] 0
                              world_created))) (documentPageKeys ''d'' 2) = Some (items ! 1)"
    by (intro exI [of _ items]) (simp del: page_loop.simps)
  moreover from s have "\<exists>it. status_record (processDocument env_flaky ''d'' ''t'' ''t/d/a.pdf''
             ''document-orchestrator-pdfs'' world_created) ''d'' = Some it \<and>
      overallStatus it = Some Processing \<and> totalPages it = Some 2 \<and>
      processedPages it = Some 2"
    by simp
  ultimately show ?thesis using h counter_world_created by blast
qed

section \<open>A parse error taken for a rate limit\<close>

lemma json_match_braces:
  "json_match (CHR 0x7B # xs @ [CHR 0x7D]) = Some (CHR 0x7B # xs @ [CHR 0x7D])"
  by (simp add: json_match_def)

lemma json_match_bad_response: "json_match bad_response = Some bad_response"
proof -
  define xs where "xs = [CHR 0x22] @ ''summary'' @ [CHR 0x22] @ '': '' @ [CHR 0x22] @
     replicate 414 (CHR ''a'') @ [CHR 0x22] @ '',''"
  have eq: "bad_response = CHR 0x7B # xs @ [CHR 0x7D]"
    by (simp add: bad_response_def xs_def)
  show ?thesis unfolding eq by (rule json_match_braces)
qed

lemma attempt_bad_json: "attempt env_bad_json tx n = Inl parse_error"
  by (simp add: attempt_def env_bad_json_def json_match_bad_response)

lemma is_rate_limit_parse_error: "is_rate_limit parse_error"
  by (simp add: is_rate_limit_def parse_error_def)

lemma retries_taken_bad_json: "retries_taken env_bad_json tx n 3 = 3"
  by (simp add: numeral_3_eq_3 attempt_bad_json is_rate_limit_parse_error)

text \<open>
C9. The analysis service answers every call, with a text whose JSON has a trailing comma:
the closing brace at offset 429 is unexpected. \<open>JSON.parse\<close> throws inside the same
\<open>try\<close> block as the call of the service, the message of its error contains \<open>429\<close>, and
\<open>analyzeChunk\<close> treats it as a rate limit: it calls the service four times and sleeps
2000, 4000 and 8000 ms before raising the parse error, although the service never signalled a
rate limit.
\<close>

theorem analyzeChunk_retries_parse_error:
  "generateContent env_bad_json 0 ''page one'' = Inr bad_response \<and>
   generateContent env_bad_json 1 ''page one'' = Inr bad_response \<and>
   generateContent env_bad_json 2 ''page one'' = Inr bad_response \<and>
   generateContent env_bad_json 3 ''page one'' = Inr bad_response \<and>
   length bad_response = 430 \<and> bad_response ! 428 = CHR '','' \<and> bad_response ! 429 = CHR 0x7D \<and>
   JSON_parse env_bad_json bad_response = Inl parse_error \<and>
   analyzeChunk env_bad_json ''page one'' 3 2000 empty_world =
     (Inl parse_error, empty_world\<lparr>modelCalls := 4, sleeps := [2000, 4000, 8000]\<rparr>)"
proof -
  have "map (\<lambda>i. 2000 * 2 ^ i) [0..<3] = [2000, 4000, 8000::nat]"
    by (simp add: numeral_3_eq_3)
  then have "analyzeChunk env_bad_json ''page one'' 3 2000 empty_world =
     (Inl parse_error, empty_world\<lparr>modelCalls := 4, sleeps := [2000, 4000, 8000]\<rparr>)"
    by (simp add: analyzeChunk_unfold retries_taken_bad_json attempt_bad_json empty_world_def)
  moreover have "length bad_response = 430" by (simp add: bad_response_def)
  moreover have "bad_response ! 428 = CHR '',''" "bad_response ! 429 = CHR 0x7D"
    by (simp_all add: bad_response_def nth_append)
  ultimately show ?thesis by (simp add: env_bad_json_def)
qed

section \<open>The manifest\<close>

























section \<open>The manifest of two example documents\<close>













end
